theory Spec2Isabelle
  imports Complex_Main "HOL-Library.Word"
begin

section \<open>The MJPEG encoder's rate control (server/mjpeg-encoder.c)\<close>

text \<open>
  A shallow embedding of the rate-control code of \<^verbatim>\<open>server/mjpeg-encoder.c\<close>.
  C's \<^verbatim>\<open>uint64_t\<close> is \<^typ>\<open>64 word\<close>; \<^verbatim>\<open>uint32_t\<close>, \<^verbatim>\<open>unsigned int\<close> and
  \<^verbatim>\<open>int\<close> are \<^typ>\<open>32 word\<close> (an \<^verbatim>\<open>int\<close> is read with \<open>sint\<close> and compared
  with \<open><s\<close>, \<open>\<le>s\<close> where C compares two \<^verbatim>\<open>int\<close>s; where C compares an \<^verbatim>\<open>int\<close>
  with an unsigned operand the usual arithmetic conversions make the comparison
  unsigned, which is \<open><\<close> on words). \<^verbatim>\<open>TRUE\<close>/\<^verbatim>\<open>FALSE\<close> flags are \<^typ>\<open>bool\<close>.
\<close>

subsection \<open>Double-precision arithmetic\<close>

text \<open>
  The code computes with \<^verbatim>\<open>double\<close> in a few places. Its operations are taken as a
  parameter \<open>F\<close> of every function that uses them, over an arbitrary carrier \<open>'f\<close>: a theorem
  stated for all \<open>F\<close> holds whatever the rounding, the infinities and the NaNs do.
  \<open>cvt\<close> is the conversion of an integer or of a decimal literal to \<^verbatim>\<open>double\<close>,
  \<open>fnz x\<close> is the C test \<^verbatim>\<open>if (x)\<close>, \<open>to_u64\<close> the conversion \<^verbatim>\<open>(uint64_t) x\<close>.
\<close>

record 'f double_ops =
  cvt :: "rat \<Rightarrow> 'f"
  fadd :: "'f \<Rightarrow> 'f \<Rightarrow> 'f"
  fmul :: "'f \<Rightarrow> 'f \<Rightarrow> 'f"
  fdiv :: "'f \<Rightarrow> 'f \<Rightarrow> 'f"
  flt :: "'f \<Rightarrow> 'f \<Rightarrow> bool"
  fle :: "'f \<Rightarrow> 'f \<Rightarrow> bool"
  fnz :: "'f \<Rightarrow> bool"
  to_u64 :: "'f \<Rightarrow> 64 word"

definition of_u64 :: "'f double_ops \<Rightarrow> 64 word \<Rightarrow> 'f" where
  "of_u64 F w = cvt F (of_nat (unat w))"

definition of_u32 :: "'f double_ops \<Rightarrow> 32 word \<Rightarrow> 'f" where
  "of_u32 F w = cvt F (of_nat (unat w))"

definition of_s32 :: "'f double_ops \<Rightarrow> 32 word \<Rightarrow> 'f" where
  "of_s32 F w = cvt F (of_int (sint w))"

text \<open>
  Exact rational arithmetic, for running the model on concrete inputs. It agrees with
  IEEE doubles wherever the values met are representable or the comparisons are not
  within a rounding error of a tie.
\<close>

definition ideal :: "rat double_ops" where
  "ideal = \<lparr> cvt = (\<lambda>r. r), fadd = (\<lambda>a b. a + b), fmul = (\<lambda>a b. a * b),
             fdiv = (\<lambda>a b. a / b), flt = (\<lambda>a b. a < b), fle = (\<lambda>a b. a \<le> b),
             fnz = (\<lambda>a. a \<noteq> 0),
             to_u64 = (\<lambda>a. word_of_int (if 0 \<le> a then \<lfloor>a\<rfloor> else \<lceil>a\<rceil>)) \<rparr>"

subsection \<open>Constants\<close>

definition MJPEG_MAX_FPS :: "32 word" where "MJPEG_MAX_FPS = 25"
definition MJPEG_MIN_FPS :: "32 word" where "MJPEG_MIN_FPS = 1"
definition MJPEG_QUALITY_SAMPLE_NUM :: "32 word" where "MJPEG_QUALITY_SAMPLE_NUM = 7"

definition mjpeg_quality_samples :: "32 word list" where
  "mjpeg_quality_samples = [20, 30, 40, 50, 60, 70, 80]"

definition MJPEG_IMPROVE_QUALITY_FPS_STRICT_TH :: "32 word" where
  "MJPEG_IMPROVE_QUALITY_FPS_STRICT_TH = 10"
definition MJPEG_IMPROVE_QUALITY_FPS_PERMISSIVE_TH :: "32 word" where
  "MJPEG_IMPROVE_QUALITY_FPS_PERMISSIVE_TH = 5"
definition MJPEG_AVERAGE_SIZE_WINDOW :: "32 word" where "MJPEG_AVERAGE_SIZE_WINDOW = 3"
definition MJPEG_BIT_RATE_EVAL_MIN_NUM_FRAMES :: "32 word" where
  "MJPEG_BIT_RATE_EVAL_MIN_NUM_FRAMES = 3"
definition MJPEG_SERVER_STATUS_EVAL_FPS_INTERVAL :: "32 word" where
  "MJPEG_SERVER_STATUS_EVAL_FPS_INTERVAL = 1"
definition MJPEG_SERVER_STATUS_DOWNGRADE_DROP_FACTOR_TH :: rat where
  "MJPEG_SERVER_STATUS_DOWNGRADE_DROP_FACTOR_TH = 1 / 10"
definition MJPEG_CLIENT_POSITIVE_REPORT_TIMEOUT :: "32 word" where
  "MJPEG_CLIENT_POSITIVE_REPORT_TIMEOUT = 2000"
definition MJPEG_CLIENT_POSITIVE_REPORT_STRICT_TIMEOUT :: "32 word" where
  "MJPEG_CLIENT_POSITIVE_REPORT_STRICT_TIMEOUT = 3000"
definition MJPEG_ADJUST_FPS_TIMEOUT :: "64 word" where "MJPEG_ADJUST_FPS_TIMEOUT = 500"

text \<open>
  Modelled from the spec: the time-unit macros (\<^verbatim>\<open>utils.h\<close>, \<^verbatim>\<open>red-common.h\<close>), which
  the repository's sources under study do not hold. The spec gives the warm-up as
  3 000 000 000 ns and the playback-delay cap as 5000 ms.
\<close>

definition NSEC_PER_SEC :: nat where "NSEC_PER_SEC = 1000000000"
definition NSEC_PER_MILLISEC :: nat where "NSEC_PER_MILLISEC = 1000000"
definition MSEC_PER_SEC :: nat where "MSEC_PER_SEC = 1000"

definition MJPEG_MAX_CLIENT_PLAYBACK_DELAY :: "32 word" where
  "MJPEG_MAX_CLIENT_PLAYBACK_DELAY = of_nat (MSEC_PER_SEC * 5)"
definition MJPEG_WARMUP_TIME :: "64 word" where
  "MJPEG_WARMUP_TIME = of_nat (NSEC_PER_SEC * 3)"

definition MJPEG_PLAYBACK_LATENCY_DECREASE_FACTOR :: rat where
  "MJPEG_PLAYBACK_LATENCY_DECREASE_FACTOR = 1 / 2"
definition MJPEG_VIDEO_VS_AUDIO_LATENCY_FACTOR :: rat where
  "MJPEG_VIDEO_VS_AUDIO_LATENCY_FACTOR = 5 / 4"
definition MJPEG_VIDEO_DELAY_TH :: "32 word" where
  "MJPEG_VIDEO_DELAY_TH = - 15"

subsection \<open>Data\<close>

datatype eval_type =
  MJPEG_QUALITY_EVAL_TYPE_SET
| MJPEG_QUALITY_EVAL_TYPE_UPGRADE
| MJPEG_QUALITY_EVAL_TYPE_DOWNGRADE

datatype eval_reason =
  MJPEG_QUALITY_EVAL_REASON_SIZE_CHANGE
| MJPEG_QUALITY_EVAL_REASON_RATE_CHANGE

record MJpegEncoderQualityEval =
  type :: eval_type
  reason :: eval_reason
  encoded_size_by_quality :: "64 word list"
  min_quality_id :: "32 word"
  min_quality_fps :: "32 word"
  max_quality_id :: "32 word"
  max_quality_fps :: "32 word"
  max_sampled_fps :: "32 word"
  max_sampled_fps_quality_id :: "32 word"

record MJpegEncoderClientState =
  max_video_latency :: "32 word"
  max_audio_latency :: "32 word"

record MJpegEncoderServerState =
  num_frames_encoded :: "32 word"
  num_frames_dropped :: "32 word"

record MJpegEncoderBitRateInfo =
  change_start_time :: "64 word"
  last_frame_time :: "64 word"
  change_start_mm_time :: "32 word"
  was_upgraded :: bool
  num_enc_frames :: "32 word"
  sum_enc_size :: "64 word"

record 'f MJpegEncoderRateControl =
  during_quality_eval :: bool
  quality_eval_data :: MJpegEncoderQualityEval
  bit_rate_info :: MJpegEncoderBitRateInfo
  client_state :: MJpegEncoderClientState
  server_state :: MJpegEncoderServerState
  byte_rate :: "64 word"
  quality_id :: "32 word"
  fps :: "32 word"
  adjusted_fps :: 'f
  adjusted_fps_start_time :: "64 word"
  adjusted_fps_num_frames :: "64 word"
  base_enc_size :: "64 word"
  last_enc_size :: "64 word"
  sum_recent_enc_size :: "64 word"
  num_recent_enc_frames :: "32 word"
  warmup_start_time :: "64 word"

text \<open>
  The callbacks of the host: each flag says whether the function pointer is set. What a
  callback answers, and what the monotonic clock reads, belongs to the host and is an
  input of each call (\<open>host\<close>): \<open>time_ns\<close> is the first reading of the clock during the
  call and \<open>time_ns_later\<close> a second one, where the call reads the clock twice.
  \<open>playback_delay_updates\<close> in the encoder logs the arguments with which
  \<^verbatim>\<open>update_client_playback_delay\<close> was called, the latest first.
\<close>

record VideoEncoderRateControlCbs =
  get_source_fps :: bool
  get_roundtrip_ms :: bool
  update_client_playback_delay :: bool

record host =
  source_fps :: "32 word"
  roundtrip_ms :: "32 word"
  time_ns :: "64 word"
  time_ns_later :: "64 word"

datatype pixel_converter = pixel_rgb24bpp_to_24 | pixel_rgb32bpp_to_24 | pixel_rgb16bpp_to_24

record 'f MJpegEncoder =
  row_size :: "32 word"
  first_frame :: bool
  bytes_per_pixel :: "32 word"
  pixel_converter :: "pixel_converter option"
  rate_control :: "'f MJpegEncoderRateControl"
  cbs :: VideoEncoderRateControlCbs
  starting_bit_rate :: "64 word"
  avg_quality :: "64 word"
  num_frames :: "32 word"
  playback_delay_updates :: "32 word list"

subsection \<open>Helpers\<close>

definition mjpeg_encoder_get_source_fps :: "host \<Rightarrow> 'f MJpegEncoder \<Rightarrow> 32 word" where
  "mjpeg_encoder_get_source_fps H e =
     (if get_source_fps (cbs e) then source_fps H else MJPEG_MAX_FPS)"

definition mjpeg_encoder_get_latency :: "host \<Rightarrow> 'f MJpegEncoder \<Rightarrow> 32 word" where
  "mjpeg_encoder_get_latency H e =
     (if get_roundtrip_ms (cbs e) then roundtrip_ms H div 2 else 0)"

text \<open>The quotient is a \<^verbatim>\<open>uint64_t\<close>, returned as \<^verbatim>\<open>uint32_t\<close>: it is truncated.\<close>

definition get_max_fps :: "64 word \<Rightarrow> 64 word \<Rightarrow> 32 word" where
  "get_max_fps frame_size bytes_per_sec =
     (if frame_size \<noteq> 0 then ucast (bytes_per_sec div frame_size) else MJPEG_MAX_FPS)"

text \<open>
  \<^verbatim>\<open>get_min_required_playback_delay\<close>: \<^verbatim>\<open>one_frame_time\<close> is the 64-bit quotient
  truncated to 32 bits, and the sum \<^verbatim>\<open>one_frame_time*2 + latency\<close> wraps at 32 bits.
\<close>

definition get_min_required_playback_delay :: "64 word \<Rightarrow> 64 word \<Rightarrow> 32 word \<Rightarrow> 32 word" where
  "get_min_required_playback_delay frame_enc_size byte_rate' latency =
     (if frame_enc_size = 0 \<or> byte_rate' = 0 then latency
      else let one_frame_time = (ucast ((frame_enc_size * of_nat MSEC_PER_SEC) div byte_rate') :: 32 word)
           in min (one_frame_time * 2 + latency) MJPEG_MAX_CLIENT_PLAYBACK_DELAY)"

subsection \<open>Resetting the quality\<close>

text \<open>
  \<^verbatim>\<open>memset\<close> to zero gives the first constant of each enumeration, empty size samples
  and zero counters.
\<close>

definition zero_quality_eval :: MJpegEncoderQualityEval where
  "zero_quality_eval =
     \<lparr> type = MJPEG_QUALITY_EVAL_TYPE_SET, reason = MJPEG_QUALITY_EVAL_REASON_SIZE_CHANGE,
       encoded_size_by_quality = replicate (unat MJPEG_QUALITY_SAMPLE_NUM) 0,
       min_quality_id = 0, min_quality_fps = 0, max_quality_id = 0, max_quality_fps = 0,
       max_sampled_fps = 0, max_sampled_fps_quality_id = 0 \<rparr>"

definition zero_server_state :: MJpegEncoderServerState where
  "zero_server_state = \<lparr> num_frames_encoded = 0, num_frames_dropped = 0 \<rparr>"

definition mjpeg_encoder_reset_quality ::
  "'f double_ops \<Rightarrow> 32 word \<Rightarrow> 32 word \<Rightarrow> 64 word \<Rightarrow> 'f MJpegEncoder \<Rightarrow> 'f MJpegEncoder" where
  "mjpeg_encoder_reset_quality F quality_id' fps' frame_enc_size e =
     (let rc0 = (rate_control e)\<lparr> during_quality_eval := False \<rparr>;
          rc1 = (if quality_id rc0 \<noteq> quality_id' then rc0\<lparr> last_enc_size := 0 \<rparr> else rc0);
          rc2 = (if reason (quality_eval_data rc1) = MJPEG_QUALITY_EVAL_REASON_RATE_CHANGE
                 then rc1\<lparr> server_state := zero_server_state \<rparr> else rc1);
          rc3 = rc2\<lparr> quality_id := quality_id',
                      quality_eval_data := zero_quality_eval
                        \<lparr> max_quality_id := MJPEG_QUALITY_SAMPLE_NUM - 1,
                          max_quality_fps := MJPEG_MAX_FPS \<rparr> \<rparr>;
          fps_ratio = (if fnz F (adjusted_fps rc3)
                       then fdiv F (adjusted_fps rc3) (of_u32 F (fps rc3))
                       else cvt F (3 / 2));
          new_fps = min MJPEG_MAX_FPS (max MJPEG_MIN_FPS fps')
      in e\<lparr> rate_control := rc3
            \<lparr> fps := new_fps,
              adjusted_fps := fmul F (of_u32 F new_fps) fps_ratio,
              adjusted_fps_start_time := 0,
              adjusted_fps_num_frames := 0,
              base_enc_size := frame_enc_size,
              sum_recent_enc_size := 0,
              num_recent_enc_frames := 0 \<rparr> \<rparr>)"

subsection \<open>Evaluating the quality\<close>

text \<open>
  \<^verbatim>\<open>QUALITY_WAS_EVALUATED\<close>. The array is indexed with an \<^verbatim>\<open>int\<close>; C leaves a read
  outside \<open>0..6\<close> undefined, and the list read \<open>!\<close> is unspecified there; the states
  that the encoder reaches keep the index within \<open>0..6\<close> (\<open>reachable_in_range\<close> below).
\<close>

definition QUALITY_WAS_EVALUATED :: "'f MJpegEncoder \<Rightarrow> 32 word \<Rightarrow> bool" where
  "QUALITY_WAS_EVALUATED e quality =
     (encoded_size_by_quality (quality_eval_data (rate_control e)) ! nat (sint quality) \<noteq> 0)"

definition set_quality_id :: "32 word \<Rightarrow> 'f MJpegEncoder \<Rightarrow> 'f MJpegEncoder" where
  "set_quality_id q e = e\<lparr> rate_control := (rate_control e)\<lparr> quality_id := q \<rparr> \<rparr>"

text \<open>The code at the label \<^verbatim>\<open>complete_sample\<close> of \<^verbatim>\<open>mjpeg_encoder_eval_quality\<close>.\<close>

definition complete_sample :: "'f double_ops \<Rightarrow> host \<Rightarrow> 'f MJpegEncoder \<Rightarrow> 'f MJpegEncoder" where
  "complete_sample F H e =
     (let rc = rate_control e;
          qe = quality_eval_data rc;
          final_quality_id =
            (if max_sampled_fps qe \<noteq> 0
             then (if max_sampled_fps_quality_id qe <s quality_id rc
                   then quality_id rc else max_sampled_fps_quality_id qe)
             else quality_id rc);
          final_quality_enc_size = encoded_size_by_quality qe ! unat final_quality_id;
          final_fps0 = get_max_fps final_quality_enc_size (byte_rate rc);
          final_fps1 = (if final_quality_id = min_quality_id qe
                        then max final_fps0 (min_quality_fps qe) else final_fps0);
          final_fps = (if final_quality_id = max_quality_id qe
                       then min final_fps1 (max_quality_fps qe) else final_fps1);
          e1 = mjpeg_encoder_reset_quality F final_quality_id final_fps final_quality_enc_size e;
          e2 = e1\<lparr> rate_control := (rate_control e1)
                 \<lparr> sum_recent_enc_size := final_quality_enc_size,
                   num_recent_enc_frames := 1 \<rparr> \<rparr>
      in if update_client_playback_delay (cbs e2)
         then e2\<lparr> playback_delay_updates :=
                get_min_required_playback_delay final_quality_enc_size
                  (byte_rate (rate_control e2)) (mjpeg_encoder_get_latency H e2)
                # playback_delay_updates e2 \<rparr>
         else e2)"

text \<open>
  \<^verbatim>\<open>mjpeg_encoder_eval_quality\<close> in its three parts. First, the best sampled frame
  rate so far is tracked; \<open>fps'\<close> is the frame rate that the sample allows.
\<close>

definition track_best_sample :: "32 word \<Rightarrow> 32 word \<Rightarrow> 'f MJpegEncoder \<Rightarrow> 'f MJpegEncoder" where
  "track_best_sample fps' src_fps e =
     (let rc = rate_control e; qe = quality_eval_data rc; q = quality_id rc
      in if max_sampled_fps qe < fps' \<or>
            ((fps' = max_sampled_fps qe \<or> src_fps \<le> fps') \<and> max_sampled_fps_quality_id qe <s q)
         then e\<lparr> rate_control := rc
                \<lparr> quality_eval_data := qe\<lparr> max_sampled_fps := fps',
                                             max_sampled_fps_quality_id := q \<rparr> \<rparr> \<rparr>
         else e)"

text \<open>
  Then another quality is chosen for the next frame, or the evaluation is completed
  (\<^verbatim>\<open>goto complete_sample\<close>).
\<close>

definition choose_next_quality ::
  "'f double_ops \<Rightarrow> host \<Rightarrow> 32 word \<Rightarrow> 32 word \<Rightarrow> 'f MJpegEncoder \<Rightarrow> 'f MJpegEncoder" where
  "choose_next_quality F H fps' src_fps e =
     (let q = quality_id (rate_control e); qe = quality_eval_data (rate_control e)
      in if MJPEG_QUALITY_SAMPLE_NUM div 2 <s q \<and>
            fps' < MJPEG_IMPROVE_QUALITY_FPS_STRICT_TH \<and> fps' < src_fps
         then (if QUALITY_WAS_EVALUATED e (q - 1)
               then complete_sample F H (set_quality_id (q - 1) e)
               else set_quality_id (q - 1) e)
         else if (MJPEG_IMPROVE_QUALITY_FPS_PERMISSIVE_TH < fps' \<and>
                  fle F (fmul F (cvt F (66 / 100)) (of_s32 F (min_quality_fps qe)))
                        (of_u32 F fps')) \<or> src_fps \<le> fps'
         then (if q + 1 = MJPEG_QUALITY_SAMPLE_NUM \<or> max_quality_id qe \<le>s q \<or>
                  QUALITY_WAS_EVALUATED e (q + 1)
               then complete_sample F H e
               else if q = MJPEG_QUALITY_SAMPLE_NUM div 2 \<and>
                       fps' < MJPEG_IMPROVE_QUALITY_FPS_STRICT_TH \<and> fps' < src_fps
               then complete_sample F H e
               else set_quality_id (q + 1) e)
         else (if q = 0 \<or> q \<le>s min_quality_id qe
               then complete_sample F H e
               else if QUALITY_WAS_EVALUATED e (q - 1)
               then complete_sample F H (set_quality_id (q - 1) e)
               else set_quality_id (q - 1) e))"

text \<open>
  The whole function. \<open>None\<close> is the failed \<^verbatim>\<open>spice_assert\<close>, which aborts the
  process.
\<close>

definition mjpeg_encoder_eval_quality ::
  "'f double_ops \<Rightarrow> host \<Rightarrow> 'f MJpegEncoder \<Rightarrow> 'f MJpegEncoder option" where
  "mjpeg_encoder_eval_quality F H e =
     (let rc = rate_control e
      in if \<not> during_quality_eval rc then None
         else let enc_size = encoded_size_by_quality (quality_eval_data rc) !
                               nat (sint (quality_id rc))
         in if enc_size = 0 then Some e
         else let src_fps = mjpeg_encoder_get_source_fps H e;
                  fps' = get_max_fps enc_size (byte_rate rc)
         in Some (choose_next_quality F H fps' src_fps (track_best_sample fps' src_fps e)))"

definition mjpeg_encoder_quality_eval_set_upgrade ::
  "eval_reason \<Rightarrow> 32 word \<Rightarrow> 32 word \<Rightarrow> 'f MJpegEncoder \<Rightarrow> 'f MJpegEncoder" where
  "mjpeg_encoder_quality_eval_set_upgrade reason' min_quality_id' min_quality_fps' e =
     e\<lparr> rate_control := (rate_control e)
        \<lparr> during_quality_eval := True,
          quality_eval_data := (quality_eval_data (rate_control e))
            \<lparr> type := MJPEG_QUALITY_EVAL_TYPE_UPGRADE, reason := reason',
              min_quality_id := min_quality_id', min_quality_fps := min_quality_fps' \<rparr> \<rparr> \<rparr>"

definition mjpeg_encoder_quality_eval_set_downgrade ::
  "eval_reason \<Rightarrow> 32 word \<Rightarrow> 32 word \<Rightarrow> 'f MJpegEncoder \<Rightarrow> 'f MJpegEncoder" where
  "mjpeg_encoder_quality_eval_set_downgrade reason' max_quality_id' max_quality_fps' e =
     e\<lparr> rate_control := (rate_control e)
        \<lparr> during_quality_eval := True,
          quality_eval_data := (quality_eval_data (rate_control e))
            \<lparr> type := MJPEG_QUALITY_EVAL_TYPE_DOWNGRADE, reason := reason',
              max_quality_id := max_quality_id', max_quality_fps := max_quality_fps' \<rparr> \<rparr> \<rparr>"

text \<open>
  \<^verbatim>\<open>mjpeg_encoder_quality_eval_stop\<close>. The \<^verbatim>\<open>default\<close> branch of the C switch is for an
  \<^verbatim>\<open>int\<close> outside the enumeration, which \<^typ>\<open>eval_type\<close> does not have.
\<close>

definition mjpeg_encoder_quality_eval_stop :: "'f double_ops \<Rightarrow> 'f MJpegEncoder \<Rightarrow> 'f MJpegEncoder" where
  "mjpeg_encoder_quality_eval_stop F e =
     (let rc = rate_control e; qe = quality_eval_data rc
      in if \<not> during_quality_eval rc then e
         else (case type qe of
                 MJPEG_QUALITY_EVAL_TYPE_UPGRADE \<Rightarrow>
                   mjpeg_encoder_reset_quality F (min_quality_id qe) (min_quality_fps qe) 0 e
               | MJPEG_QUALITY_EVAL_TYPE_DOWNGRADE \<Rightarrow>
                   mjpeg_encoder_reset_quality F (max_quality_id qe) (max_quality_fps qe) 0 e
               | MJPEG_QUALITY_EVAL_TYPE_SET \<Rightarrow>
                   mjpeg_encoder_reset_quality F (MJPEG_QUALITY_SAMPLE_NUM div 2)
                     (MJPEG_MAX_FPS div 2) 0 e))"

subsection \<open>Changing the bit rate\<close>

text \<open>
  The rate measured over the frames encoded since the last change of the bit rate:
  \<^verbatim>\<open>duration_sec = last_frame_time - change_start_time; duration_sec /= NSEC_PER_SEC;
  measured_byte_rate = sum_enc_size / duration_sec\<close>, a \<^verbatim>\<open>double\<close> converted to
  \<^verbatim>\<open>uint64_t\<close>. (\<^verbatim>\<open>measured_fps\<close> is only printed.)
\<close>

definition measured_byte_rate :: "'f double_ops \<Rightarrow> MJpegEncoderBitRateInfo \<Rightarrow> 64 word" where
  "measured_byte_rate F bri =
     (let duration_sec = fdiv F (of_u64 F (last_frame_time bri - change_start_time bri))
                                (cvt F (of_nat NSEC_PER_SEC))
      in to_u64 F (fdiv F (of_u64 F (sum_enc_size bri)) duration_sec))"

definition zero_bit_rate_info :: "bool \<Rightarrow> MJpegEncoderBitRateInfo" where
  "zero_bit_rate_info upgraded =
     \<lparr> change_start_time = 0, last_frame_time = 0, change_start_mm_time = 0,
       was_upgraded = upgraded, num_enc_frames = 0, sum_enc_size = 0 \<rparr>"

text \<open>
  \<^verbatim>\<open>mjpeg_encoder_decrease_bit_rate\<close>; \<open>now\<close> is what the monotonic clock reads.
  \<open>None\<close> is the integer division by \<^verbatim>\<open>measured_fps = 0\<close>.
\<close>

definition mjpeg_encoder_decrease_bit_rate ::
  "'f double_ops \<Rightarrow> 64 word \<Rightarrow> 'f MJpegEncoder \<Rightarrow> 'f MJpegEncoder option" where
  "mjpeg_encoder_decrease_bit_rate F now e =
     (let e1 = mjpeg_encoder_quality_eval_stop F e;
          rc1 = (rate_control e1)
                  \<lparr> client_state := \<lparr> max_video_latency = 0, max_audio_latency = 0 \<rparr> \<rparr>
      in if warmup_start_time rc1 \<noteq> 0 \<and> now - warmup_start_time rc1 < MJPEG_WARMUP_TIME
         then Some (e1\<lparr> rate_control := rc1 \<rparr>)
         else let rc2 = (if warmup_start_time rc1 \<noteq> 0 then rc1\<lparr> warmup_start_time := 0 \<rparr> else rc1);
                  bri = bit_rate_info rc2;
                  measure = (MJPEG_BIT_RATE_EVAL_MIN_NUM_FRAMES < num_enc_frames bri \<or>
                             fps rc2 < num_enc_frames bri)
         in if \<not> measure \<and> fps rc2 = 0 then None
            else let measured0 = (if measure then measured_byte_rate F bri else byte_rate rc2);
                     decrease_size0 = (if measure then sum_enc_size bri div ucast (num_enc_frames bri)
                                       else measured0 div ucast (fps rc2));
                     measured = min (byte_rate rc2) measured0;
                     decrease_size = (if measured \<le> decrease_size0 then measured div 2
                                      else decrease_size0);
                     rc3 = rc2\<lparr> byte_rate := measured - decrease_size,
                                 bit_rate_info := zero_bit_rate_info False \<rparr>
            in Some (mjpeg_encoder_quality_eval_set_downgrade
                       MJPEG_QUALITY_EVAL_REASON_RATE_CHANGE (quality_id rc3) (fps rc3)
                       (e1\<lparr> rate_control := rc3 \<rparr>)))"

definition mjpeg_encoder_handle_negative_client_stream_report ::
  "'f double_ops \<Rightarrow> 64 word \<Rightarrow> 32 word \<Rightarrow> 'f MJpegEncoder \<Rightarrow> 'f MJpegEncoder option" where
  "mjpeg_encoder_handle_negative_client_stream_report F now report_end_frame_mm_time e =
     (let bri = bit_rate_info (rate_control e)
      in if (report_end_frame_mm_time < change_start_mm_time bri \<or> change_start_mm_time bri = 0) \<and>
            \<not> was_upgraded bri
         then Some e
         else mjpeg_encoder_decrease_bit_rate F now e)"

definition mjpeg_encoder_increase_bit_rate :: "'f double_ops \<Rightarrow> 'f MJpegEncoder \<Rightarrow> 'f MJpegEncoder" where
  "mjpeg_encoder_increase_bit_rate F e =
     (let bri = bit_rate_info (rate_control e)
      in if MJPEG_BIT_RATE_EVAL_MIN_NUM_FRAMES < num_enc_frames bri \<or>
            fps (rate_control e) < num_enc_frames bri
         then let measured = measured_byte_rate F bri;
                  increase_size = sum_enc_size bri div ucast (num_enc_frames bri);
                  e1 = mjpeg_encoder_quality_eval_stop F e;
                  rc1 = rate_control e1;
                  rc2 = (if measured + increase_size < byte_rate rc1 then rc1
                         else rc1\<lparr> byte_rate := min measured (byte_rate rc1) + increase_size \<rparr>);
                  rc3 = rc2\<lparr> bit_rate_info := zero_bit_rate_info True \<rparr>
              in mjpeg_encoder_quality_eval_set_upgrade
                   MJPEG_QUALITY_EVAL_REASON_RATE_CHANGE (quality_id rc3) (fps rc3)
                   (e1\<lparr> rate_control := rc3 \<rparr>)
         else e)"

text \<open>
  \<^verbatim>\<open>stable_client_mm_time\<close> is the 32-bit difference stored in an \<^verbatim>\<open>int\<close> and compared
  with the \<^verbatim>\<open>int\<close> \<^verbatim>\<open>timeout\<close>.
\<close>

definition mjpeg_encoder_handle_positive_client_stream_report ::
  "'f double_ops \<Rightarrow> host \<Rightarrow> 32 word \<Rightarrow> 'f MJpegEncoder \<Rightarrow> 'f MJpegEncoder" where
  "mjpeg_encoder_handle_positive_client_stream_report F H report_start_frame_mm_time e =
     (let rc = rate_control e; bri = bit_rate_info rc
      in if during_quality_eval rc \<and>
            reason (quality_eval_data rc) = MJPEG_QUALITY_EVAL_REASON_RATE_CHANGE
         then e
         else let timeout =
                    (if (MJPEG_IMPROVE_QUALITY_FPS_STRICT_TH < fps rc \<or>
                         mjpeg_encoder_get_source_fps H e \<le> fps rc) \<and>
                        MJPEG_QUALITY_SAMPLE_NUM div 2 <s quality_id rc
                     then MJPEG_CLIENT_POSITIVE_REPORT_STRICT_TIMEOUT
                     else MJPEG_CLIENT_POSITIVE_REPORT_TIMEOUT);
                  stable_client_mm_time = report_start_frame_mm_time - change_start_mm_time bri
         in if change_start_mm_time bri = 0 \<or> stable_client_mm_time <s timeout
            then e
            else mjpeg_encoder_increase_bit_rate F e)"

subsection \<open>Server drops\<close>

definition mjpeg_encoder_process_server_drops ::
  "'f double_ops \<Rightarrow> host \<Rightarrow> 64 word \<Rightarrow> 'f MJpegEncoder \<Rightarrow> 'f MJpegEncoder option" where
  "mjpeg_encoder_process_server_drops F H now e =
     (let ss = server_state (rate_control e);
          fps' = min (fps (rate_control e)) (mjpeg_encoder_get_source_fps H e)
      in if num_frames_encoded ss < fps' * MJPEG_SERVER_STATUS_EVAL_FPS_INTERVAL then Some e
         else let num_frames_total = num_frames_dropped ss + num_frames_encoded ss;
                  drop_factor = fdiv F (of_u32 F (num_frames_dropped ss)) (of_u32 F num_frames_total)
         in map_option
              (\<lambda>e1. e1\<lparr> rate_control := (rate_control e1)\<lparr> server_state := zero_server_state \<rparr> \<rparr>)
              (if flt F (cvt F MJPEG_SERVER_STATUS_DOWNGRADE_DROP_FACTOR_TH) drop_factor
               then mjpeg_encoder_decrease_bit_rate F now e
               else Some e))"

definition mjpeg_encoder_notify_server_frame_drop ::
  "'f double_ops \<Rightarrow> host \<Rightarrow> 'f MJpegEncoder \<Rightarrow> 'f MJpegEncoder option" where
  "mjpeg_encoder_notify_server_frame_drop F H e =
     (let rc = rate_control e; ss = server_state rc
      in mjpeg_encoder_process_server_drops F H (time_ns H)
           (e\<lparr> rate_control := rc
                \<lparr> server_state := ss\<lparr> num_frames_dropped := num_frames_dropped ss + 1 \<rparr> \<rparr> \<rparr>))"

subsection \<open>Adjusting to the bit rate and to the frame rate\<close>

definition record_encoded_size :: "64 word \<Rightarrow> 'f MJpegEncoder \<Rightarrow> 'f MJpegEncoder" where
  "record_encoded_size sz e =
     (let rc = rate_control e; qe = quality_eval_data rc
      in e\<lparr> rate_control := rc
           \<lparr> quality_eval_data := qe
             \<lparr> encoded_size_by_quality :=
                 (encoded_size_by_quality qe)[nat (sint (quality_id rc)) := sz] \<rparr> \<rparr> \<rparr>)"

text \<open>The code at the label \<^verbatim>\<open>end\<close> of \<^verbatim>\<open>mjpeg_encoder_adjust_params_to_bit_rate\<close>.\<close>

definition adjust_params_end ::
  "'f double_ops \<Rightarrow> host \<Rightarrow> 64 word \<Rightarrow> 64 word \<Rightarrow> 'f MJpegEncoder \<Rightarrow> 'f MJpegEncoder option" where
  "adjust_params_end F H now new_avg_enc_size e =
     (if during_quality_eval (rate_control e)
      then mjpeg_encoder_eval_quality F H (record_encoded_size new_avg_enc_size e)
      else mjpeg_encoder_process_server_drops F H now e)"

definition mjpeg_encoder_adjust_params_to_bit_rate ::
  "'f double_ops \<Rightarrow> host \<Rightarrow> 64 word \<Rightarrow> 'f MJpegEncoder \<Rightarrow> 'f MJpegEncoder option" where
  "mjpeg_encoder_adjust_params_to_bit_rate F H now e =
     (let rc = rate_control e
      in if last_enc_size rc = 0 then Some e
         else if during_quality_eval rc
         then mjpeg_encoder_eval_quality F H (record_encoded_size (last_enc_size rc) e)
         else if num_recent_enc_frames rc = 0 then Some e
         else if num_recent_enc_frames rc < MJPEG_AVERAGE_SIZE_WINDOW \<and>
                 num_recent_enc_frames rc < fps rc
         then adjust_params_end F H now 0 e
         else let new_avg_enc_size = sum_recent_enc_size rc div ucast (num_recent_enc_frames rc);
                  new_fps = get_max_fps new_avg_enc_size (byte_rate rc);
                  src_fps = mjpeg_encoder_get_source_fps H e
         in if fps rc < new_fps \<and>
               (fps rc < src_fps \<or> quality_id rc <s MJPEG_QUALITY_SAMPLE_NUM - 1)
            then adjust_params_end F H now new_avg_enc_size
                   (mjpeg_encoder_quality_eval_set_upgrade
                      MJPEG_QUALITY_EVAL_REASON_SIZE_CHANGE (quality_id rc) (fps rc) e)
            else if new_fps < fps rc \<and> new_fps < src_fps
            then adjust_params_end F H now new_avg_enc_size
                   (mjpeg_encoder_quality_eval_set_downgrade
                      MJPEG_QUALITY_EVAL_REASON_SIZE_CHANGE (quality_id rc) (fps rc) e)
            else adjust_params_end F H now new_avg_enc_size e)"

text \<open>
  \<^verbatim>\<open>mjpeg_encoder_adjust_fps\<close>. \<^verbatim>\<open>MIN\<close> and \<^verbatim>\<open>MAX\<close> on doubles are the conditional
  expressions \<^verbatim>\<open>a < b ? a : b\<close> and \<^verbatim>\<open>a > b ? a : b\<close>.
\<close>

definition mjpeg_encoder_adjust_fps ::
  "'f double_ops \<Rightarrow> host \<Rightarrow> 64 word \<Rightarrow> 'f MJpegEncoder \<Rightarrow> 'f MJpegEncoder" where
  "mjpeg_encoder_adjust_fps F H now e =
     (let rc = rate_control e;
          adjusted_fps_time_passed = (now - adjusted_fps_start_time rc) div of_nat NSEC_PER_MILLISEC
      in if \<not> during_quality_eval rc \<and>
            MJPEG_ADJUST_FPS_TIMEOUT < adjusted_fps_time_passed \<and>
            flt F (fdiv F (cvt F (of_nat MSEC_PER_SEC)) (adjusted_fps rc))
                  (of_u64 F adjusted_fps_time_passed)
         then let avg_fps = fdiv F (fmul F (of_u64 F (adjusted_fps_num_frames rc))
                                            (cvt F (of_nat MSEC_PER_SEC)))
                                   (of_u64 F adjusted_fps_time_passed);
                  fps_ratio = fdiv F avg_fps (of_u32 F (fps rc));
                  rc1 = (if flt F (fadd F avg_fps (cvt F (1 / 2))) (of_u32 F (fps rc)) \<and>
                            flt F avg_fps (of_u32 F (mjpeg_encoder_get_source_fps H e))
                         then let new_adjusted_fps =
                                    (if fnz F avg_fps then fdiv F (adjusted_fps rc) fps_ratio
                                     else fmul F (adjusted_fps rc) (cvt F 2))
                              in rc\<lparr> adjusted_fps :=
                                      (if flt F (of_u32 F (fps rc * 2)) new_adjusted_fps
                                       then of_u32 F (fps rc * 2) else new_adjusted_fps) \<rparr>
                         else if flt F (fadd F (of_u32 F (fps rc)) (cvt F (1 / 2))) avg_fps
                         then let new_adjusted_fps = fdiv F (adjusted_fps rc) fps_ratio
                              in rc\<lparr> adjusted_fps :=
                                      (if flt F new_adjusted_fps (of_u32 F (fps rc))
                                       then of_u32 F (fps rc) else new_adjusted_fps) \<rparr>
                         else rc)
              in e\<lparr> rate_control := rc1\<lparr> adjusted_fps_start_time := now,
                                          adjusted_fps_num_frames := 0 \<rparr> \<rparr>
         else e)"

subsection \<open>Encoding a frame\<close>

datatype frame_result =
  VIDEO_ENCODER_FRAME_UNSUPPORTED
| VIDEO_ENCODER_FRAME_DROP
| VIDEO_ENCODER_FRAME_ENCODE_DONE

datatype SpiceBitmapFmt =
  SPICE_BITMAP_FMT_INVALID
| SPICE_BITMAP_FMT_1BIT_LE
| SPICE_BITMAP_FMT_1BIT_BE
| SPICE_BITMAP_FMT_4BIT_LE
| SPICE_BITMAP_FMT_4BIT_BE
| SPICE_BITMAP_FMT_8BIT
| SPICE_BITMAP_FMT_16BIT
| SPICE_BITMAP_FMT_24BIT
| SPICE_BITMAP_FMT_32BIT
| SPICE_BITMAP_FMT_RGBA
| SPICE_BITMAP_FMT_8BIT_A

text \<open>
  What one iteration of the scanline loop of \<^verbatim>\<open>encode_frame\<close> meets: no line
  (\<^verbatim>\<open>get_image_line\<close> returned \<^verbatim>\<open>NULL\<close>), or the number of scanlines that
  \<^verbatim>\<open>jpeg_write_scanlines\<close> reports as written. The bitmap's chunks and the JPEG library
  are outside the rate control, so these outcomes are inputs.
\<close>

datatype scanline = No_line | Scanlines_written nat

text \<open>
  A frame as submitted: its media time, pixel format and source rectangle; whether
  \<^verbatim>\<open>create_mjpeg_video_buffer\<close> could allocate the output buffer; the outcome of each
  scanline; and the length of the compressed data when the compression finishes.
\<close>

record frame =
  frame_mm_time :: "32 word"
  format :: SpiceBitmapFmt
  src_left :: "32 word"
  src_top :: "32 word"
  src_right :: "32 word"
  src_bottom :: "32 word"
  buffer_allocated :: bool
  scanlines :: "nat \<Rightarrow> scanline"
  compressed_size :: "64 word"

text \<open>
  The admission test of \<^verbatim>\<open>mjpeg_encoder_start_frame\<close>:
  \<^verbatim>\<open>interval < NSEC_PER_SEC / rate_control->adjusted_fps\<close>.
\<close>

definition too_early :: "'f double_ops \<Rightarrow> 64 word \<Rightarrow> 'f \<Rightarrow> bool" where
  "too_early F interval adjusted = flt F (of_u64 F interval) (fdiv F (cvt F (of_nat NSEC_PER_SEC)) adjusted)"

text \<open>
  The switch on the pixel format; \<open>jcs\<close> says whether the JPEG library was built with
  \<^verbatim>\<open>JCS_EXTENSIONS\<close>. \<open>None\<close> is the \<^verbatim>\<open>default\<close> branch.
\<close>

definition select_format :: "bool \<Rightarrow> SpiceBitmapFmt \<Rightarrow> (32 word \<times> pixel_converter option) option" where
  "select_format jcs fmt =
     (if fmt = SPICE_BITMAP_FMT_32BIT \<or> fmt = SPICE_BITMAP_FMT_RGBA
      then Some (4, if jcs then None else Some pixel_rgb32bpp_to_24)
      else if fmt = SPICE_BITMAP_FMT_16BIT then Some (2, Some pixel_rgb16bpp_to_24)
      else if fmt = SPICE_BITMAP_FMT_24BIT
      then Some (3, if jcs then None else Some pixel_rgb24bpp_to_24)
      else None)"

text \<open>
  The first statements of \<^verbatim>\<open>mjpeg_encoder_start_frame\<close>, up to the admission test:
  the clock is read, the window of the frame-rate adjustment is opened if it is not, and
  \<^verbatim>\<open>mjpeg_encoder_adjust_fps\<close> runs.
\<close>

definition start_frame_pacing :: "'f double_ops \<Rightarrow> host \<Rightarrow> 'f MJpegEncoder \<Rightarrow> 'f MJpegEncoder" where
  "start_frame_pacing F H e =
     (let now = time_ns H;
          e1 = (if adjusted_fps_start_time (rate_control e) = 0
                then e\<lparr> rate_control := (rate_control e)\<lparr> adjusted_fps_start_time := now \<rparr> \<rparr>
                else e)
      in mjpeg_encoder_adjust_fps F H now e1)"

definition mjpeg_encoder_start_frame ::
  "'f double_ops \<Rightarrow> host \<Rightarrow> bool \<Rightarrow> frame \<Rightarrow> 'f MJpegEncoder \<Rightarrow>
   (frame_result \<times> 'f MJpegEncoder) option" where
  "mjpeg_encoder_start_frame F H jcs fr e =
     (let now = time_ns H;
          e2 = start_frame_pacing F H e;
          interval = now - last_frame_time (bit_rate_info (rate_control e2))
      in if too_early F interval (adjusted_fps (rate_control e2))
         then Some (VIDEO_ENCODER_FRAME_DROP, e2)
         else (case mjpeg_encoder_adjust_params_to_bit_rate F H (time_ns_later H) e2 of
                 None \<Rightarrow> None
               | Some e3 \<Rightarrow>
           let rc3 = rate_control e3; bri = bit_rate_info rc3;
               e4 = (if \<not> during_quality_eval rc3 \<or>
                        reason (quality_eval_data rc3) = MJPEG_QUALITY_EVAL_REASON_SIZE_CHANGE
                     then let bri1 = (if change_start_time bri = 0
                                      then bri\<lparr> change_start_time := now,
                                                 change_start_mm_time := frame_mm_time fr \<rparr>
                                      else bri)
                          in e3\<lparr> rate_control := rc3
                                 \<lparr> bit_rate_info := bri1\<lparr> last_frame_time := now \<rparr> \<rparr> \<rparr>
                     else e3);
               e5 = e4\<lparr> pixel_converter := None \<rparr>
           in (case select_format jcs (format fr) of
                 None \<Rightarrow> Some (VIDEO_ENCODER_FRAME_UNSUPPORTED, e5)
               | Some (bpp, conv) \<Rightarrow>
           let e6 = e5\<lparr> bytes_per_pixel := bpp, pixel_converter := conv \<rparr>;
               image_width = src_right fr - src_left fr;
               stride = image_width * 3
           in if conv \<noteq> None \<and> stride < image_width
              then Some (VIDEO_ENCODER_FRAME_UNSUPPORTED, e6)
              else let e7 = (if conv \<noteq> None \<and> row_size e6 < stride
                             then e6\<lparr> row_size := stride \<rparr> else e6);
                       quality = mjpeg_quality_samples ! nat (sint (quality_id (rate_control e7)))
                   in Some (VIDEO_ENCODER_FRAME_ENCODE_DONE,
                            e7\<lparr> num_frames := num_frames e7 + 1,
                                avg_quality := avg_quality e7 + ucast quality \<rparr>))))"

text \<open>
  \<^verbatim>\<open>mjpeg_encoder_encode_scanline\<close>, given what \<^verbatim>\<open>jpeg_write_scanlines\<close> returned.
\<close>

definition mjpeg_encoder_encode_scanline :: "nat \<Rightarrow> 'f MJpegEncoder \<Rightarrow> nat \<times> 'f MJpegEncoder" where
  "mjpeg_encoder_encode_scanline scanlines_written e =
     (if scanlines_written = 0
      then (0, e\<lparr> rate_control := (rate_control e)\<lparr> last_enc_size := 0 \<rparr> \<rparr>)
      else (scanlines_written, e))"

text \<open>The scanline loop of \<^verbatim>\<open>encode_frame\<close>, over the outcomes of its iterations.\<close>

fun encode_frame :: "scanline list \<Rightarrow> 'f MJpegEncoder \<Rightarrow> bool \<times> 'f MJpegEncoder" where
  "encode_frame [] e = (True, e)"
| "encode_frame (No_line # ls) e = (False, e)"
| "encode_frame (Scanlines_written n # ls) e =
     (case mjpeg_encoder_encode_scanline n e of
        (w, e1) \<Rightarrow> if w = 0 then (False, e1) else encode_frame ls e1)"

definition mjpeg_encoder_end_frame :: "64 word \<Rightarrow> 'f MJpegEncoder \<Rightarrow> 'f MJpegEncoder" where
  "mjpeg_encoder_end_frame compressed e =
     (let rc = rate_control e; ss = server_state rc;
          rc1 = rc\<lparr> last_enc_size := compressed,
                    server_state := ss\<lparr> num_frames_encoded := num_frames_encoded ss + 1 \<rparr> \<rparr>;
          rc2 = (if \<not> during_quality_eval rc1
                 then let rc' = (if MJPEG_AVERAGE_SIZE_WINDOW \<le> num_recent_enc_frames rc1
                                 then rc1\<lparr> num_recent_enc_frames := 0, sum_recent_enc_size := 0 \<rparr>
                                 else rc1)
                      in rc'\<lparr> sum_recent_enc_size := sum_recent_enc_size rc' + last_enc_size rc',
                              num_recent_enc_frames := num_recent_enc_frames rc' + 1,
                              adjusted_fps_num_frames := adjusted_fps_num_frames rc' + 1 \<rparr>
                 else rc1);
          bri = bit_rate_info rc2;
          rc3 = (if \<not> during_quality_eval rc2 \<or>
                    reason (quality_eval_data rc2) = MJPEG_QUALITY_EVAL_REASON_SIZE_CHANGE
                 then rc2\<lparr> bit_rate_info := bri
                            \<lparr> sum_enc_size := sum_enc_size bri + last_enc_size rc2,
                              num_enc_frames := num_enc_frames bri + 1 \<rparr> \<rparr>
                 else rc2)
      in e\<lparr> first_frame := False, rate_control := rc3 \<rparr>)"

definition mjpeg_encoder_encode_frame ::
  "'f double_ops \<Rightarrow> host \<Rightarrow> bool \<Rightarrow> frame \<Rightarrow> 'f MJpegEncoder \<Rightarrow>
   (frame_result \<times> 'f MJpegEncoder) option" where
  "mjpeg_encoder_encode_frame F H jcs fr e =
     (if \<not> buffer_allocated fr then Some (VIDEO_ENCODER_FRAME_UNSUPPORTED, e)
      else (case mjpeg_encoder_start_frame F H jcs fr e of
              None \<Rightarrow> None
            | Some (ret, e1) \<Rightarrow>
                if ret = VIDEO_ENCODER_FRAME_ENCODE_DONE
                then (case encode_frame
                             (map (scanlines fr) [0 ..< unat (src_bottom fr - src_top fr)]) e1 of
                        (True, e2) \<Rightarrow>
                          Some (VIDEO_ENCODER_FRAME_ENCODE_DONE,
                                mjpeg_encoder_end_frame (compressed_size fr) e2)
                      | (False, e2) \<Rightarrow> Some (VIDEO_ENCODER_FRAME_UNSUPPORTED, e2))
                else Some (ret, e1)))"

subsection \<open>Client reports\<close>

definition mjpeg_encoder_client_stream_report ::
  "'f double_ops \<Rightarrow> host \<Rightarrow> 32 word \<Rightarrow> 32 word \<Rightarrow> 32 word \<Rightarrow> 32 word \<Rightarrow> 32 word \<Rightarrow> 32 word \<Rightarrow>
   'f MJpegEncoder \<Rightarrow> 'f MJpegEncoder option" where
  "mjpeg_encoder_client_stream_report F H num_frames' num_drops start_frame_mm_time
       end_frame_mm_time end_frame_delay audio_delay e =
     (let rc = rate_control e; qe = quality_eval_data rc
      in if during_quality_eval rc \<and> type qe = MJPEG_QUALITY_EVAL_TYPE_DOWNGRADE \<and>
            reason qe = MJPEG_QUALITY_EVAL_REASON_RATE_CHANGE
         then Some e
         else let avg_enc_size = (if num_recent_enc_frames rc \<noteq> 0
                                  then sum_recent_enc_size rc div ucast (num_recent_enc_frames rc)
                                  else 0);
                  min_playback_delay = get_min_required_playback_delay avg_enc_size (byte_rate rc)
                                         (mjpeg_encoder_get_latency H e);
                  src_fps = mjpeg_encoder_get_source_fps H e;
                  is_video_delay_small =
                    (end_frame_delay < min_playback_delay \<and>
                     (quality_id rc \<noteq> MJPEG_QUALITY_SAMPLE_NUM - 1 \<or>
                      fps rc < min src_fps MJPEG_MAX_FPS \<or> end_frame_delay <s 0));
                  e1 = (if is_video_delay_small \<and> update_client_playback_delay (cbs e)
                        then e\<lparr> playback_delay_updates :=
                                 min_playback_delay # playback_delay_updates e \<rparr>
                        else e);
                  cs = client_state rc
         in if 0 <s end_frame_delay \<and>
               flt F (of_u32 F audio_delay)
                     (fmul F (cvt F MJPEG_PLAYBACK_LATENCY_DECREASE_FACTOR)
                             (of_u32 F (max_audio_latency cs))) \<and>
               flt F (fmul F (cvt F MJPEG_VIDEO_VS_AUDIO_LATENCY_FACTOR) (of_u32 F audio_delay))
                     (of_s32 F end_frame_delay)
            then mjpeg_encoder_handle_negative_client_stream_report F (time_ns H)
                   end_frame_mm_time e1
            else if end_frame_delay <s MJPEG_VIDEO_DELAY_TH
            then mjpeg_encoder_handle_negative_client_stream_report F (time_ns H)
                   end_frame_mm_time e1
            else let cs1 = \<lparr> max_video_latency =
                               (if max_video_latency cs <s end_frame_delay then end_frame_delay
                                else max_video_latency cs),
                             max_audio_latency = max audio_delay (max_audio_latency cs) \<rparr>;
                     e2 = e1\<lparr> rate_control := (rate_control e1)\<lparr> client_state := cs1 \<rparr> \<rparr>;
                     medium_delay_decrease_thresh =
                       fmul F (of_s32 F (max_video_latency cs1))
                              (cvt F MJPEG_PLAYBACK_LATENCY_DECREASE_FACTOR);
                     major_delay_decrease_thresh =
                       fmul F medium_delay_decrease_thresh
                              (cvt F MJPEG_PLAYBACK_LATENCY_DECREASE_FACTOR)
                 in if (flt F (of_s32 F end_frame_delay) medium_delay_decrease_thresh \<and>
                        is_video_delay_small) \<or>
                       flt F (of_s32 F end_frame_delay) major_delay_decrease_thresh
                    then mjpeg_encoder_handle_negative_client_stream_report F (time_ns H)
                           end_frame_mm_time e2
                    else if num_drops = 0
                    then Some (mjpeg_encoder_handle_positive_client_stream_report F H
                                 start_frame_mm_time e2)
                    else Some e2)"

subsection \<open>Queries and construction\<close>

definition mjpeg_encoder_get_bit_rate :: "'f MJpegEncoder \<Rightarrow> 64 word" where
  "mjpeg_encoder_get_bit_rate e = byte_rate (rate_control e) * 8"

record 'f VideoEncoderStats =
  stats_starting_bit_rate :: "64 word"
  stats_cur_bit_rate :: "64 word"
  stats_avg_quality :: 'f

definition mjpeg_encoder_get_stats :: "'f double_ops \<Rightarrow> 'f MJpegEncoder \<Rightarrow> 'f VideoEncoderStats" where
  "mjpeg_encoder_get_stats F e =
     \<lparr> stats_starting_bit_rate = starting_bit_rate e,
       stats_cur_bit_rate = mjpeg_encoder_get_bit_rate e,
       stats_avg_quality = fdiv F (of_u64 F (avg_quality e)) (of_u32 F (num_frames e)) \<rparr>"

datatype SpiceVideoCodecType =
  SPICE_VIDEO_CODEC_TYPE_MJPEG
| SPICE_VIDEO_CODEC_TYPE_VP8
| SPICE_VIDEO_CODEC_TYPE_H264

text \<open>What \<^verbatim>\<open>spice_new0\<close> returns: every field zero.\<close>

definition zero_encoder :: "'f double_ops \<Rightarrow> 'f MJpegEncoder" where
  "zero_encoder F =
     \<lparr> row_size = 0, first_frame = False, bytes_per_pixel = 0, pixel_converter = None,
       rate_control =
         \<lparr> during_quality_eval = False,
           quality_eval_data = zero_quality_eval,
           bit_rate_info = zero_bit_rate_info False,
           client_state = \<lparr> max_video_latency = 0, max_audio_latency = 0 \<rparr>,
           server_state = zero_server_state,
           byte_rate = 0, quality_id = 0, fps = 0, adjusted_fps = cvt F 0,
           adjusted_fps_start_time = 0, adjusted_fps_num_frames = 0,
           base_enc_size = 0, last_enc_size = 0, sum_recent_enc_size = 0,
           num_recent_enc_frames = 0, warmup_start_time = 0 \<rparr>,
       cbs = \<lparr> get_source_fps = False, get_roundtrip_ms = False,
               update_client_playback_delay = False \<rparr>,
       starting_bit_rate = 0, avg_quality = 0, num_frames = 0,
       playback_delay_updates = [] \<rparr>"

text \<open>
  \<^verbatim>\<open>mjpeg_encoder_new\<close>; \<open>now\<close> is what the monotonic clock reads. \<open>None\<close> is the
  \<^verbatim>\<open>NULL\<close> returned for another codec.
\<close>

definition mjpeg_encoder_new ::
  "'f double_ops \<Rightarrow> SpiceVideoCodecType \<Rightarrow> 64 word \<Rightarrow> VideoEncoderRateControlCbs \<Rightarrow> 64 word \<Rightarrow>
   'f MJpegEncoder option" where
  "mjpeg_encoder_new F codec_type starting_bit_rate' cbs' now =
     (if codec_type \<noteq> SPICE_VIDEO_CODEC_TYPE_MJPEG then None
      else let e0 = (zero_encoder F)
                      \<lparr> first_frame := True,
                        rate_control := (rate_control (zero_encoder F))
                          \<lparr> byte_rate := starting_bit_rate' div 8 \<rparr>,
                        starting_bit_rate := starting_bit_rate',
                        cbs := cbs' \<rparr>;
               e1 = mjpeg_encoder_reset_quality F (MJPEG_QUALITY_SAMPLE_NUM div 2) 5 0 e0;
               rc1 = rate_control e1
           in Some (e1\<lparr> rate_control := rc1
                        \<lparr> during_quality_eval := True,
                          quality_eval_data := (quality_eval_data rc1)
                            \<lparr> type := MJPEG_QUALITY_EVAL_TYPE_SET,
                              reason := MJPEG_QUALITY_EVAL_REASON_RATE_CHANGE \<rparr>,
                          warmup_start_time := now \<rparr> \<rparr>))"

subsection \<open>Runs of the encoder\<close>

text \<open>
  The three operations through which the host drives the rate control, and a run of
  them from a state. \<open>None\<close>: the process was aborted on the way.
\<close>

datatype event =
  Frame host bool frame
| Report host "32 word" "32 word" "32 word" "32 word" "32 word" "32 word"
| Server_drop host

fun step :: "'f double_ops \<Rightarrow> 'f MJpegEncoder \<Rightarrow> event \<Rightarrow> 'f MJpegEncoder option" where
  "step F e (Frame H jcs fr) = map_option snd (mjpeg_encoder_encode_frame F H jcs fr e)"
| "step F e (Report H n d s t v a) = mjpeg_encoder_client_stream_report F H n d s t v a e"
| "step F e (Server_drop H) = mjpeg_encoder_notify_server_frame_drop F H e"

fun run :: "'f double_ops \<Rightarrow> 'f MJpegEncoder \<Rightarrow> event list \<Rightarrow> 'f MJpegEncoder option" where
  "run F e [] = Some e"
| "run F e (ev # evs) = (case step F e ev of None \<Rightarrow> None | Some e1 \<Rightarrow> run F e1 evs)"

text \<open>A run from the construction of the encoder.\<close>

definition run_from_new ::
  "'f double_ops \<Rightarrow> 64 word \<Rightarrow> VideoEncoderRateControlCbs \<Rightarrow> 64 word \<Rightarrow> event list \<Rightarrow>
   'f MJpegEncoder option" where
  "run_from_new F starting_bit_rate' cbs' now evs =
     (case mjpeg_encoder_new F SPICE_VIDEO_CODEC_TYPE_MJPEG starting_bit_rate' cbs' now of
        None \<Rightarrow> None
      | Some e \<Rightarrow> run F e evs)"

text \<open>
  The rate that \<^verbatim>\<open>mjpeg_encoder_decrease_bit_rate\<close> would measure in a state is at
  least one byte per second, once two frames are accounted for; and the same along a run.
\<close>

definition rate_measurable :: "'f double_ops \<Rightarrow> 'f MJpegEncoder \<Rightarrow> bool" where
  "rate_measurable F e \<longleftrightarrow>
     (2 \<le> num_enc_frames (bit_rate_info (rate_control e)) \<longrightarrow>
      measured_byte_rate F (bit_rate_info (rate_control e)) \<noteq> 0)"

fun rates_measurable :: "'f double_ops \<Rightarrow> 'f MJpegEncoder \<Rightarrow> event list \<Rightarrow> bool" where
  "rates_measurable F e [] = True"
| "rates_measurable F e (ev # evs) =
     (rate_measurable F e \<and>
      (case step F e ev of None \<Rightarrow> True | Some e1 \<Rightarrow> rates_measurable F e1 evs))"

text \<open>
  The invariant of the byte rate, and what the steps that do not change the bit rate
  keep: the byte rate, the accounting since the last change, and a non-zero \<open>fps\<close>.
\<close>

definition positive_rate :: "'f MJpegEncoder \<Rightarrow> bool" where
  "positive_rate e \<longleftrightarrow> byte_rate (rate_control e) \<noteq> 0 \<and> fps (rate_control e) \<noteq> 0"

definition rate_kept :: "'f MJpegEncoder \<Rightarrow> 'f MJpegEncoder \<Rightarrow> bool" where
  "rate_kept e e1 \<longleftrightarrow>
     byte_rate (rate_control e1) = byte_rate (rate_control e) \<and>
     bit_rate_info (rate_control e1) = bit_rate_info (rate_control e) \<and>
     (fps (rate_control e) \<noteq> 0 \<longrightarrow> fps (rate_control e1) \<noteq> 0)"

text \<open>
  The indices into the table of the qualities and into the size samples: an index is in
  range when it is below \<^verbatim>\<open>MJPEG_QUALITY_SAMPLE_NUM\<close>, and a state keeps its samples in
  range when the current quality, the bounds of the evaluation and the best sampled
  quality all are, and there are seven size samples.
\<close>

definition sample_index :: "32 word \<Rightarrow> bool" where
  "sample_index q \<longleftrightarrow> q < MJPEG_QUALITY_SAMPLE_NUM"

definition samples_in_range :: "'f MJpegEncoder \<Rightarrow> bool" where
  "samples_in_range e \<longleftrightarrow>
     length (encoded_size_by_quality (quality_eval_data (rate_control e))) =
       unat MJPEG_QUALITY_SAMPLE_NUM \<and>
     sample_index (quality_id (rate_control e)) \<and>
     sample_index (min_quality_id (quality_eval_data (rate_control e))) \<and>
     sample_index (max_quality_id (quality_eval_data (rate_control e))) \<and>
     sample_index (max_sampled_fps_quality_id (quality_eval_data (rate_control e)))"

subsection \<open>Sample inputs\<close>

definition sample_cbs :: VideoEncoderRateControlCbs where
  "sample_cbs = \<lparr> get_source_fps = True, get_roundtrip_ms = True,
                   update_client_playback_delay = True \<rparr>"

text \<open>A host whose source runs at 25 frames per second, read at the time \<open>t\<close>.\<close>

definition host_at :: "64 word \<Rightarrow> host" where
  "host_at t = \<lparr> source_fps = 25, roundtrip_ms = 20, time_ns = t, time_ns_later = t \<rparr>"

text \<open>
  A frame of 640 by 1 pixels in the format \<open>fmt\<close>, whose scanline is written and which
  compresses to \<open>sz\<close> bytes.
\<close>

definition frame_of :: "SpiceBitmapFmt \<Rightarrow> 64 word \<Rightarrow> frame" where
  "frame_of fmt sz =
     \<lparr> frame_mm_time = 1000, format = fmt, src_left = 0, src_top = 0,
       src_right = 640, src_bottom = 1, buffer_allocated = True,
       scanlines = (\<lambda>i. Scanlines_written 1), compressed_size = sz \<rparr>"

definition good_frame :: "64 word \<Rightarrow> 64 word \<Rightarrow> event" where
  "good_frame t sz = Frame (host_at t) False (frame_of SPICE_BITMAP_FMT_32BIT sz)"

text \<open>
  The quality walk of the spec: frames one second apart that compress to 20, 25, 40 and
  90 KB at the qualities 3, 4, 5 and 6, and a fifth frame, at whose submission the last
  sample is evaluated. \<open>kb\<close> is the number of bytes in a KB.
\<close>

definition quality_walk :: "64 word \<Rightarrow> event list" where
  "quality_walk kb =
     [good_frame 1000000000 (20 * kb), good_frame 2000000000 (25 * kb),
      good_frame 3000000000 (40 * kb), good_frame 4000000000 (90 * kb),
      good_frame 5000000000 (90 * kb)]"

text \<open>
  A state in which ten frames, 200000 bytes in all, were encoded in the second since the
  last change of the bit rate.
\<close>

definition sample_rated :: "rat MJpegEncoder" where
  "sample_rated =
     (zero_encoder ideal)
       \<lparr> rate_control := (rate_control (zero_encoder ideal))
           \<lparr> byte_rate := 150000, quality_id := 3, fps := 5,
             bit_rate_info :=
               \<lparr> change_start_time = 1000000000, last_frame_time = 2000000000,
                 change_start_mm_time = 1000, was_upgraded = False,
                 num_enc_frames = 10, sum_enc_size = 200000 \<rparr> \<rparr> \<rparr>"

text \<open>The same state, one second into the warm-up.\<close>

definition sample_warming :: "rat MJpegEncoder" where
  "sample_warming =
     sample_rated\<lparr> rate_control := (rate_control sample_rated)
                     \<lparr> warmup_start_time := 1000000000 \<rparr> \<rparr>"

text \<open>
  The state \<open>sample_rated\<close>, paced at 10 frames per second: the next frame is admitted
  100 ms after the last one, which was encoded at 2 s.
\<close>

definition sample_paced :: "rat MJpegEncoder" where
  "sample_paced =
     sample_rated\<lparr> rate_control := (rate_control sample_rated)
                     \<lparr> adjusted_fps := 10, adjusted_fps_start_time := 2000000000 \<rparr> \<rparr>"

text \<open>
  What the submission of the frame \<open>fr\<close> returns, and the \<^verbatim>\<open>last_enc_size\<close> it leaves,
  when it is the second frame of a stream whose first frame compressed to 20000 bytes.
\<close>

definition second_frame_outcome :: "frame \<Rightarrow> (frame_result \<times> 64 word) option" where
  "second_frame_outcome fr =
     (case run_from_new ideal 8000000 sample_cbs 1 [good_frame 1000000000 20000] of
        None \<Rightarrow> None
      | Some e \<Rightarrow>
          map_option (\<lambda>(r, e1). (r, last_enc_size (rate_control e1)))
            (mjpeg_encoder_encode_frame ideal (host_at 2000000000) False fr e))"

text \<open>
  A stream whose second frame has a pixel format that is not supported: the frames
  before and after it compress to 20000 and 25000 bytes.
\<close>

definition interrupted_run :: "event list" where
  "interrupted_run =
     [good_frame 1000000000 20000,
      Frame (host_at 2000000000) False (frame_of SPICE_BITMAP_FMT_8BIT 0),
      good_frame 3000000000 25000]"

text \<open>
  The state after the bit rate of \<open>sample_rated\<close> was increased: an evaluation of type
  UPGRADE with the reason RATE_CHANGE is under way.
\<close>

definition sample_upgrading :: "rat MJpegEncoder" where
  "sample_upgrading = mjpeg_encoder_increase_bit_rate ideal sample_rated"

text \<open>
  A client report of 10 frames without drops, with a frame delay of 100 ms and no audio
  delay, on \<open>sample_upgrading\<close>.
\<close>

definition healthy_report :: "rat MJpegEncoder option" where
  "healthy_report =
     mjpeg_encoder_client_stream_report ideal (host_at 3000000000) 10 0 1000 2000 100 0
       sample_upgrading"

text \<open>
  A steady stream, the quality walk and three more frames of 90000 bytes; and the same
  stream rated down by a client report with a frame delay of -50 ms.
\<close>

definition steady_run :: "event list" where
  "steady_run =
     quality_walk 1000 @
     [good_frame 6000000000 90000, good_frame 7000000000 90000, good_frame 8000000000 90000]"

definition rated_down_run :: "event list" where
  "rated_down_run = steady_run @ [Report (host_at 9000000000) 10 0 1000 1000 (- 50) 0]"

text \<open>
  A slow stream: frames of 1000 bytes, 2000 seconds apart, and then a client report with
  a frame delay of -50 ms. Over the four frames accounted for, 4000 bytes in 6000 seconds,
  the measured rate is below one byte per second.
\<close>

definition slow_run :: "event list" where
  "slow_run =
     [good_frame 2000000000000 1000, good_frame 4000000000000 1000,
      good_frame 6000000000000 1000, good_frame 8000000000000 1000,
      good_frame 10000000000000 1000, good_frame 12000000000000 1000,
      good_frame 14000000000000 1000, good_frame 16000000000000 1000,
      Report (host_at 18000000000000) 10 0 1000 1000 (- 50) 0]"

section \<open>Properties\<close>

subsection \<open>Unfolding and evaluation\<close>

lemmas const_defs = MJPEG_MAX_FPS_def MJPEG_MIN_FPS_def MJPEG_QUALITY_SAMPLE_NUM_def
  mjpeg_quality_samples_def MJPEG_IMPROVE_QUALITY_FPS_STRICT_TH_def
  MJPEG_IMPROVE_QUALITY_FPS_PERMISSIVE_TH_def MJPEG_AVERAGE_SIZE_WINDOW_def
  MJPEG_BIT_RATE_EVAL_MIN_NUM_FRAMES_def MJPEG_SERVER_STATUS_EVAL_FPS_INTERVAL_def
  MJPEG_SERVER_STATUS_DOWNGRADE_DROP_FACTOR_TH_def MJPEG_CLIENT_POSITIVE_REPORT_TIMEOUT_def
  MJPEG_CLIENT_POSITIVE_REPORT_STRICT_TIMEOUT_def MJPEG_ADJUST_FPS_TIMEOUT_def
  NSEC_PER_SEC_def NSEC_PER_MILLISEC_def MSEC_PER_SEC_def MJPEG_MAX_CLIENT_PLAYBACK_DELAY_def
  MJPEG_WARMUP_TIME_def MJPEG_PLAYBACK_LATENCY_DECREASE_FACTOR_def
  MJPEG_VIDEO_VS_AUDIO_LATENCY_FACTOR_def MJPEG_VIDEO_DELAY_TH_def

lemmas model_defs = of_u64_def of_u32_def of_s32_def ideal_def
  mjpeg_encoder_get_source_fps_def mjpeg_encoder_get_latency_def get_max_fps_def
  get_min_required_playback_delay_def zero_quality_eval_def zero_server_state_def
  mjpeg_encoder_reset_quality_def QUALITY_WAS_EVALUATED_def set_quality_id_def
  complete_sample_def track_best_sample_def choose_next_quality_def
  mjpeg_encoder_eval_quality_def mjpeg_encoder_quality_eval_set_upgrade_def
  mjpeg_encoder_quality_eval_set_downgrade_def mjpeg_encoder_quality_eval_stop_def
  measured_byte_rate_def zero_bit_rate_info_def mjpeg_encoder_decrease_bit_rate_def
  mjpeg_encoder_handle_negative_client_stream_report_def mjpeg_encoder_increase_bit_rate_def
  mjpeg_encoder_handle_positive_client_stream_report_def mjpeg_encoder_process_server_drops_def
  mjpeg_encoder_notify_server_frame_drop_def record_encoded_size_def adjust_params_end_def
  mjpeg_encoder_adjust_params_to_bit_rate_def mjpeg_encoder_adjust_fps_def too_early_def
  select_format_def start_frame_pacing_def mjpeg_encoder_start_frame_def
  mjpeg_encoder_encode_scanline_def mjpeg_encoder_end_frame_def mjpeg_encoder_encode_frame_def
  mjpeg_encoder_client_stream_report_def mjpeg_encoder_get_bit_rate_def
  mjpeg_encoder_get_stats_def zero_encoder_def mjpeg_encoder_new_def

lemmas sample_defs = run_from_new_def sample_cbs_def host_at_def frame_of_def good_frame_def
  quality_walk_def rate_measurable_def sample_rated_def sample_warming_def sample_paced_def
  second_frame_outcome_def
  interrupted_run_def sample_upgrading_def healthy_report_def steady_run_def
  rated_down_run_def
  slow_run_def

lemma floor_rat_numeral_divide:
  "\<lfloor>numeral a / numeral b :: rat\<rfloor> = numeral a div numeral b"
  using floor_divide_of_int_eq [of "numeral a" "numeral b", where 'a = rat] by simp

lemma floor_rat_one_divide:
  "\<lfloor>1 / numeral b :: rat\<rfloor> = 1 div numeral b"
  using floor_divide_of_int_eq [of 1 "numeral b", where 'a = rat] by simp

text \<open>
  Running the model on a concrete input unfolds every definition; the arguments of a
  \<open>let\<close> are evaluated before its body (\<open>cong: let_weak_cong\<close>).
\<close>

lemmas eval_defs = sample_defs model_defs const_defs Let_def word_sless_alt word_sle_eq
  word_le_nat_alt word_less_nat_alt floor_rat_numeral_divide floor_rat_one_divide

subsection \<open>Words\<close>

lemma unat_ucast_32_64: "unat (ucast (n :: 32 word) :: 64 word) = unat n"
proof -
  have "unat n < 2 ^ 32" using unsigned_less [of n, where 'a = nat] by simp
  then have "unat n < 2 ^ 64" by (rule less_le_trans) simp
  then show ?thesis by (simp add: unsigned_ucast_eq take_bit_nat_eq_self)
qed

lemma average_below_half:
  fixes n :: "32 word" and s :: "64 word"
  assumes "2 \<le> n"
  shows "unat (s div ucast n) < 9223372036854775808"
proof -
  have n2: "2 \<le> unat n" using assms by (simp add: word_le_nat_alt)
  have "unat s < 18446744073709551616" using unsigned_less [of s, where 'a = nat] by simp
  moreover have "unat s div unat n \<le> unat s div 2" using n2 by (simp add: div_le_mono2)
  ultimately have "unat s div unat n < 9223372036854775808" by linarith
  then show ?thesis by (simp add: unat_div unat_ucast_32_64)
qed

lemma raised_rate_no_wrap:
  fixes b m i :: "64 word"
  assumes "unat i < 9223372036854775808" "\<not> m + i < b"
  shows "b \<le> min m b + i"
proof (cases "m \<le> b")
  case True
  then have "min m b = m" by simp
  with assms show ?thesis by simp
next
  case False
  then have mb: "unat b < unat m" by (simp add: word_le_nat_alt)
  have bm: "unat m < 18446744073709551616"
    using unsigned_less [of m, where 'a = nat] by simp
  have a2: "unat b \<le> unat (m + i)" using assms(2) by (simp add: word_less_nat_alt)
  have "unat b + unat i < 18446744073709551616"
  proof (rule ccontr)
    assume n: "\<not> unat b + unat i < 18446744073709551616"
    then have "\<not> unat m + unat i < 18446744073709551616" using mb by linarith
    then have "unat (m + i) = unat m + unat i - 18446744073709551616"
      by (simp add: unat_plus_if')
    with a2 n bm assms(1) show False by linarith
  qed
  then have "unat (b + i) = unat b + unat i" by (simp add: unat_plus_if')
  then have "b \<le> b + i" by (simp add: word_le_nat_alt)
  moreover from False have "min m b = b" by simp
  ultimately show ?thesis by simp
qed

lemma measured_frames_two:
  fixes n f :: "32 word"
  assumes "f \<noteq> 0" "3 < n \<or> f < n"
  shows "2 \<le> n"
proof -
  have "0 < unat f" using assms(1) by (simp add: unat_gt_0)
  moreover have "3 < unat n \<or> unat f < unat n" using assms(2) by (simp add: word_less_nat_alt)
  ultimately have "2 \<le> unat n" by linarith
  then show ?thesis by (simp add: word_le_nat_alt)
qed

subsection \<open>What resetting the quality keeps\<close>

lemma reset_quality_byte_rate [simp]:
  "byte_rate (rate_control (mjpeg_encoder_reset_quality F q f s e)) = byte_rate (rate_control e)"
  by (simp add: mjpeg_encoder_reset_quality_def Let_def)

lemma reset_quality_warmup [simp]:
  "warmup_start_time (rate_control (mjpeg_encoder_reset_quality F q f s e)) =
   warmup_start_time (rate_control e)"
  by (simp add: mjpeg_encoder_reset_quality_def Let_def)

lemma reset_quality_bit_rate_info [simp]:
  "bit_rate_info (rate_control (mjpeg_encoder_reset_quality F q f s e)) =
   bit_rate_info (rate_control e)"
  by (simp add: mjpeg_encoder_reset_quality_def Let_def)

lemma reset_quality_fps:
  "fps (rate_control (mjpeg_encoder_reset_quality F q f s e)) =
   min MJPEG_MAX_FPS (max MJPEG_MIN_FPS f)"
  by (simp add: mjpeg_encoder_reset_quality_def Let_def)

lemma quality_eval_stop_byte_rate [simp]:
  "byte_rate (rate_control (mjpeg_encoder_quality_eval_stop F e)) = byte_rate (rate_control e)"
  by (simp add: mjpeg_encoder_quality_eval_stop_def Let_def split: eval_type.split)

lemma quality_eval_stop_warmup [simp]:
  "warmup_start_time (rate_control (mjpeg_encoder_quality_eval_stop F e)) =
   warmup_start_time (rate_control e)"
  by (simp add: mjpeg_encoder_quality_eval_stop_def Let_def split: eval_type.split)

lemma quality_eval_stop_bit_rate_info [simp]:
  "bit_rate_info (rate_control (mjpeg_encoder_quality_eval_stop F e)) =
   bit_rate_info (rate_control e)"
  by (simp add: mjpeg_encoder_quality_eval_stop_def Let_def split: eval_type.split)

subsection \<open>The recommended playback delay\<close>

text \<open>
  Claim C5, as the code has it: for a frame size and a byte rate that are both non-zero,
  \<^verbatim>\<open>get_min_required_playback_delay\<close> returns at most 5000 ms.
\<close>

theorem min_delay_capped:
  "frame_enc_size \<noteq> 0 \<Longrightarrow> br \<noteq> 0 \<Longrightarrow>
   get_min_required_playback_delay frame_enc_size br latency \<le> 5000"
  by (simp add: get_min_required_playback_delay_def MJPEG_MAX_CLIENT_PLAYBACK_DELAY_def
        MSEC_PER_SEC_def Let_def)

theorem min_delay_capped_witness:
  "(40000 :: 64 word) \<noteq> 0 \<and> (1000000 :: 64 word) \<noteq> 0 \<and>
   get_min_required_playback_delay 40000 1000000 10 \<le> 5000"
  using min_delay_capped [of 40000 1000000 10] by simp

text \<open>
  Claim C5 as stated fails: with no frame size to go by, the function returns the latency
  as it is, here 6000 ms at a byte rate of 1.
\<close>

theorem min_delay_uncapped_without_frame_size:
  "get_min_required_playback_delay 0 1 6000 = 6000 \<and>
   \<not> get_min_required_playback_delay 0 1 6000 \<le> 5000"
  by (simp add: get_min_required_playback_delay_def)

subsection \<open>Construction\<close>

text \<open>
  Claim C6: constructed with a starting bit rate of 8000000 while the monotonic clock
  reads a non-zero time, the encoder has \<open>byte_rate = 1000000\<close>, \<open>quality_id = 3\<close>,
  \<open>fps = 5\<close>, is evaluating the quality, has a non-zero \<open>warmup_start_time\<close>, and
  reports a bit rate of 8000000.
\<close>

theorem construction_defaults:
  "now \<noteq> 0 \<Longrightarrow>
   \<exists>e. mjpeg_encoder_new F SPICE_VIDEO_CODEC_TYPE_MJPEG 8000000 c now = Some e \<and>
       byte_rate (rate_control e) = 1000000 \<and> quality_id (rate_control e) = 3 \<and>
       fps (rate_control e) = 5 \<and> during_quality_eval (rate_control e) \<and>
       warmup_start_time (rate_control e) \<noteq> 0 \<and> mjpeg_encoder_get_bit_rate e = 8000000"
  by (simp add: mjpeg_encoder_new_def Let_def reset_quality_fps mjpeg_encoder_get_bit_rate_def
        zero_encoder_def MJPEG_MAX_FPS_def MJPEG_MIN_FPS_def MJPEG_QUALITY_SAMPLE_NUM_def
        mjpeg_encoder_reset_quality_def)

theorem construction_defaults_witness:
  "(1 :: 64 word) \<noteq> 0 \<and>
   (\<exists>e. mjpeg_encoder_new ideal SPICE_VIDEO_CODEC_TYPE_MJPEG 8000000 sample_cbs 1 = Some e \<and>
        byte_rate (rate_control e) = 1000000 \<and> quality_id (rate_control e) = 3 \<and>
        fps (rate_control e) = 5 \<and> during_quality_eval (rate_control e) \<and>
        warmup_start_time (rate_control e) \<noteq> 0 \<and> mjpeg_encoder_get_bit_rate e = 8000000)"
  using construction_defaults [of 1 ideal sample_cbs] by simp

subsection \<open>Decreasing the bit rate during the warm-up\<close>

text \<open>
  Claim C2: a call of \<^verbatim>\<open>mjpeg_encoder_decrease_bit_rate\<close> while \<open>warmup_start_time\<close> is
  non-zero and less than 3 seconds (3000000000 ns) before the clock's reading returns and
  leaves \<open>byte_rate\<close> as it was.
\<close>

theorem decrease_in_warmup_keeps_byte_rate:
  "warmup_start_time (rate_control e) \<noteq> 0 \<Longrightarrow>
   now - warmup_start_time (rate_control e) < 3000000000 \<Longrightarrow>
   \<exists>e1. mjpeg_encoder_decrease_bit_rate F now e = Some e1 \<and>
        byte_rate (rate_control e1) = byte_rate (rate_control e)"
  by (simp add: mjpeg_encoder_decrease_bit_rate_def Let_def MJPEG_WARMUP_TIME_def NSEC_PER_SEC_def)

theorem decrease_in_warmup_keeps_byte_rate_witness:
  "warmup_start_time (rate_control sample_warming) \<noteq> 0 \<and>
   2000000000 - warmup_start_time (rate_control sample_warming) < 3000000000 \<and>
   (\<exists>e1. mjpeg_encoder_decrease_bit_rate ideal 2000000000 sample_warming = Some e1 \<and>
         byte_rate (rate_control e1) = byte_rate (rate_control sample_warming))"
proof -
  have h1: "warmup_start_time (rate_control sample_warming) \<noteq> 0"
    by (simp add: sample_warming_def)
  have h2: "2000000000 - warmup_start_time (rate_control sample_warming) < 3000000000"
    by (simp add: sample_warming_def)
  from decrease_in_warmup_keeps_byte_rate [OF h1 h2, where F = ideal] h1 h2
  show ?thesis by blast
qed

subsection \<open>Increasing the bit rate\<close>

lemma increase_bit_rate_byte_rate:
  "byte_rate (rate_control (mjpeg_encoder_increase_bit_rate F e)) =
     (let b = byte_rate (rate_control e); bri = bit_rate_info (rate_control e);
          m = measured_byte_rate F bri;
          i = sum_enc_size bri div ucast (num_enc_frames bri)
      in if (3 < num_enc_frames bri \<or> fps (rate_control e) < num_enc_frames bri) \<and>
            \<not> m + i < b
         then min m b + i else b)"
  by (simp add: mjpeg_encoder_increase_bit_rate_def Let_def
        mjpeg_encoder_quality_eval_set_upgrade_def MJPEG_BIT_RATE_EVAL_MIN_NUM_FRAMES_def)

text \<open>
  With \<open>fps\<close> at least 1, a rate is measured over at least two frames, so the average
  frame size is below \<open>2^63\<close> and the sum that raises the rate does not wrap around.
\<close>

lemma increase_bit_rate_mono:
  assumes "fps (rate_control e) \<noteq> 0"
  shows "byte_rate (rate_control e) \<le>
         byte_rate (rate_control (mjpeg_encoder_increase_bit_rate F e))"
proof -
  let ?bri = "bit_rate_info (rate_control e)"
  let ?b = "byte_rate (rate_control e)"
  let ?m = "measured_byte_rate F ?bri"
  let ?i = "sum_enc_size ?bri div ucast (num_enc_frames ?bri)"
  show ?thesis
  proof (cases "(3 < num_enc_frames ?bri \<or> fps (rate_control e) < num_enc_frames ?bri) \<and>
                \<not> ?m + ?i < ?b")
    case True
    then have "2 \<le> num_enc_frames ?bri" using assms measured_frames_two by blast
    then have "unat ?i < 9223372036854775808" by (rule average_below_half)
    with True have "?b \<le> min ?m ?b + ?i" by (simp add: raised_rate_no_wrap)
    with True show ?thesis by (simp add: increase_bit_rate_byte_rate Let_def)
  next
    case False
    then show ?thesis by (auto simp add: increase_bit_rate_byte_rate Let_def)
  qed
qed

subsection \<open>The quality walk from the median\<close>

text \<open>
  Claim C4 as stated fails: the walk from quality 3 with samples of 20, 25, 40 and 90 KB
  at a byte rate of 1000000 and a source of 25 frames per second does not end at
  \<open>quality_id = 5\<close>.
\<close>

theorem quality_walk_not_at_5:
  "map_option (\<lambda>e. quality_id (rate_control e))
     (run_from_new ideal 8000000 sample_cbs 1 (quality_walk 1000)) \<noteq> Some 5"
  by (simp add: eval_defs cong: let_weak_cong)

text \<open>
  Claim C4, as the code has it: after four frames the samples 20, 25 and 40 KB are
  recorded at the qualities 3, 4 and 5, and the 90 KB frame was encoded at quality 6; at
  the next frame the evaluation commits with \<open>quality_id = 6\<close> and \<open>fps = 11\<close>, since
  11 frames per second pass both thresholds. With a KB of 1024 bytes it commits with
  \<open>quality_id = 6\<close> and \<open>fps = 10\<close>.
\<close>

theorem quality_walk_commits_at_6:
  "map_option (\<lambda>e. (quality_id (rate_control e), during_quality_eval (rate_control e),
                     encoded_size_by_quality (quality_eval_data (rate_control e)) ! 3,
                     encoded_size_by_quality (quality_eval_data (rate_control e)) ! 4,
                     encoded_size_by_quality (quality_eval_data (rate_control e)) ! 5,
                     last_enc_size (rate_control e)))
     (run_from_new ideal 8000000 sample_cbs 1 (take 4 (quality_walk 1000))) =
     Some (6, True, 20000, 25000, 40000, 90000) \<and>
   map_option (\<lambda>e. (quality_id (rate_control e), fps (rate_control e),
                     during_quality_eval (rate_control e)))
     (run_from_new ideal 8000000 sample_cbs 1 (quality_walk 1000)) = Some (6, 11, False) \<and>
   map_option (\<lambda>e. (quality_id (rate_control e), fps (rate_control e),
                     during_quality_eval (rate_control e)))
     (run_from_new ideal 8000000 sample_cbs 1 (quality_walk 1024)) = Some (6, 10, False)"
  by (simp add: eval_defs cong: let_weak_cong)

subsection \<open>Unsupported frames\<close>

text \<open>
  Claim C7 at a failing input. After a first frame of 20000 bytes, a second frame is
  returned as unsupported when its pixel format is not known (8 bit), when its row stride
  overflows (16 bit, 1610612736 pixels wide), when a line of the bitmap is missing, and
  when the scanline cannot be written. Only the last case clears \<open>last_enc_size\<close>; the
  others leave the size of the first frame in it. The third frame then records that size,
  measured at quality 3, as the sample of quality 4, at which no frame was encoded.
\<close>

theorem unsupported_frame_keeps_last_enc_size:
  "second_frame_outcome (frame_of SPICE_BITMAP_FMT_8BIT 0) =
     Some (VIDEO_ENCODER_FRAME_UNSUPPORTED, 20000) \<and>
   second_frame_outcome ((frame_of SPICE_BITMAP_FMT_16BIT 0)\<lparr> src_right := 1610612736 \<rparr>) =
     Some (VIDEO_ENCODER_FRAME_UNSUPPORTED, 20000) \<and>
   second_frame_outcome ((frame_of SPICE_BITMAP_FMT_32BIT 0)\<lparr> scanlines := (\<lambda>i. No_line) \<rparr>) =
     Some (VIDEO_ENCODER_FRAME_UNSUPPORTED, 20000) \<and>
   second_frame_outcome
     ((frame_of SPICE_BITMAP_FMT_32BIT 0)\<lparr> scanlines := (\<lambda>i. Scanlines_written 0) \<rparr>) =
     Some (VIDEO_ENCODER_FRAME_UNSUPPORTED, 0) \<and>
   map_option (\<lambda>e. (encoded_size_by_quality (quality_eval_data (rate_control e)) ! 3,
                     encoded_size_by_quality (quality_eval_data (rate_control e)) ! 4,
                     quality_id (rate_control e)))
     (run_from_new ideal 8000000 sample_cbs 1 interrupted_run) = Some (20000, 20000, 5)"
  by (simp add: eval_defs cong: let_weak_cong)

subsection \<open>What keeps the byte rate positive\<close>

lemma clamped_fps_nonzero: "min MJPEG_MAX_FPS (max MJPEG_MIN_FPS (f :: 32 word)) \<noteq> 0"
proof
  assume z: "min MJPEG_MAX_FPS (max MJPEG_MIN_FPS f) = 0"
  have "(1 :: 32 word) \<le> max 1 f" by simp
  moreover have "(1 :: 32 word) \<le> 25" by simp
  ultimately have "(1 :: 32 word) \<le> min 25 (max 1 f)" by simp
  with z show False by (simp add: MJPEG_MAX_FPS_def MJPEG_MIN_FPS_def)
qed

lemma rate_kept_refl [simp]: "rate_kept e e"
  by (simp add: rate_kept_def)

lemma rate_kept_trans: "rate_kept e e1 \<Longrightarrow> rate_kept e1 e2 \<Longrightarrow> rate_kept e e2"
  by (simp add: rate_kept_def)

lemma rate_kept_positive: "rate_kept e e1 \<Longrightarrow> positive_rate e \<Longrightarrow> positive_rate e1"
  by (simp add: rate_kept_def positive_rate_def)

lemma rate_kept_measurable: "rate_kept e e1 \<Longrightarrow> rate_measurable F e1 = rate_measurable F e"
  by (simp add: rate_kept_def rate_measurable_def)

lemma reset_quality_kept: "rate_kept e (mjpeg_encoder_reset_quality F q f s e)"
  by (simp add: rate_kept_def reset_quality_fps clamped_fps_nonzero)

lemma quality_eval_stop_kept: "rate_kept e (mjpeg_encoder_quality_eval_stop F e)"
  by (simp add: mjpeg_encoder_quality_eval_stop_def Let_def reset_quality_kept split: eval_type.split)

lemma set_quality_id_kept: "rate_kept e (set_quality_id q e)"
  by (simp add: rate_kept_def set_quality_id_def)

lemma record_encoded_size_kept: "rate_kept e (record_encoded_size s e)"
  by (simp add: rate_kept_def record_encoded_size_def Let_def)

lemma set_upgrade_kept: "rate_kept e (mjpeg_encoder_quality_eval_set_upgrade r q f e)"
  by (simp add: rate_kept_def mjpeg_encoder_quality_eval_set_upgrade_def)

lemma set_downgrade_kept: "rate_kept e (mjpeg_encoder_quality_eval_set_downgrade r q f e)"
  by (simp add: rate_kept_def mjpeg_encoder_quality_eval_set_downgrade_def)

lemma complete_sample_kept: "rate_kept e (complete_sample F H e)"
proof -
  have "rate_kept e (mjpeg_encoder_reset_quality F q f s e)" for q f s
    by (rule reset_quality_kept)
  then show ?thesis
    by (simp add: complete_sample_def Let_def rate_kept_def)
qed

lemma track_best_sample_kept: "rate_kept e (track_best_sample f s e)"
  by (simp add: track_best_sample_def Let_def rate_kept_def)

lemma choose_next_quality_kept: "rate_kept e (choose_next_quality F H f s e)"
proof -
  have k: "rate_kept e x \<Longrightarrow> rate_kept e (complete_sample F H x)" for x
    using complete_sample_kept rate_kept_trans by blast
  show ?thesis
    by (simp add: choose_next_quality_def Let_def k set_quality_id_kept complete_sample_kept)
qed

lemma eval_quality_kept:
  assumes "during_quality_eval (rate_control e)"
  shows "\<exists>e1. mjpeg_encoder_eval_quality F H e = Some e1 \<and> rate_kept e e1"
  using assms track_best_sample_kept choose_next_quality_kept rate_kept_trans
  by (fastforce simp add: mjpeg_encoder_eval_quality_def Let_def)

lemma halved_nonzero:
  fixes m :: "64 word"
  assumes "m \<noteq> 0"
  shows "m - m div 2 \<noteq> 0"
proof -
  have "0 < unat m" using assms by (simp add: unat_gt_0)
  then have "unat m div 2 < unat m" by simp
  then have "m div 2 < m" by (simp add: word_less_nat_alt unat_div)
  then show ?thesis by simp
qed

lemma decreased_nonzero:
  fixes b m0 d0 :: "64 word"
  assumes "b \<noteq> 0" "m0 \<noteq> 0"
  shows "min b m0 - (if min b m0 \<le> d0 then min b m0 div 2 else d0) \<noteq> 0"
proof -
  define m where "m = min b m0"
  have m: "m \<noteq> 0" using assms by (simp add: m_def min_def)
  have "m - (if m \<le> d0 then m div 2 else d0) \<noteq> 0"
  proof (cases "m \<le> d0")
    case True
    then show ?thesis using halved_nonzero [OF m] by simp
  next
    case False
    then show ?thesis by auto
  qed
  then show ?thesis unfolding m_def .
qed


lemma half_fixed_zero:
  fixes m :: "64 word"
  shows "m = m div 2 \<Longrightarrow> m = 0"
  using halved_nonzero [of m] by auto

lemma word_min_zero:
  fixes a b :: "64 word"
  shows "min a b = 0 \<longleftrightarrow> a = 0 \<or> b = 0"
  by (auto simp: min_def word_le_nat_alt unat_eq_zero)

lemma decrease_positive:
  assumes "positive_rate e" "rate_measurable F e"
  shows "\<exists>e1. mjpeg_encoder_decrease_bit_rate F now e = Some e1 \<and> positive_rate e1"
proof -
  let ?e1 = "mjpeg_encoder_quality_eval_stop F e"
  have k: "rate_kept e ?e1" by (rule quality_eval_stop_kept)
  then have p1: "positive_rate ?e1" using assms(1) by (rule rate_kept_positive)
  have b1: "byte_rate (rate_control ?e1) \<noteq> 0" and f1: "fps (rate_control ?e1) \<noteq> 0"
    using p1 by (simp_all add: positive_rate_def)
  have bri: "bit_rate_info (rate_control ?e1) = bit_rate_info (rate_control e)" by simp
  have meas: "3 < num_enc_frames (bit_rate_info (rate_control e)) \<or>
              fps (rate_control ?e1) < num_enc_frames (bit_rate_info (rate_control e)) \<Longrightarrow>
              measured_byte_rate F (bit_rate_info (rate_control e)) \<noteq> 0"
    using assms(2) measured_frames_two [OF f1] by (simp add: rate_measurable_def)
  show ?thesis
    using b1 f1 meas
    by (auto simp add: mjpeg_encoder_decrease_bit_rate_def Let_def positive_rate_def
          mjpeg_encoder_quality_eval_set_downgrade_def MJPEG_BIT_RATE_EVAL_MIN_NUM_FRAMES_def
          word_min_zero dest!: half_fixed_zero)
qed

lemma server_state_reset_positive:
  "positive_rate e1 \<Longrightarrow>
   positive_rate (e1\<lparr> rate_control := (rate_control e1)\<lparr> server_state := ss \<rparr> \<rparr>)"
  by (simp add: positive_rate_def)

lemma process_server_drops_positive:
  assumes "positive_rate e" "rate_measurable F e"
  shows "\<exists>e1. mjpeg_encoder_process_server_drops F H now e = Some e1 \<and> positive_rate e1"
  using assms decrease_positive [OF assms, of now]
  by (auto simp add: mjpeg_encoder_process_server_drops_def Let_def server_state_reset_positive)

lemma adjust_params_end_positive:
  assumes "rate_kept e0 e" "positive_rate e0" "rate_measurable F e0"
  shows "\<exists>e1. adjust_params_end F H now s e = Some e1 \<and> positive_rate e1"
proof (cases "during_quality_eval (rate_control e)")
  case True
  have "rate_kept e0 (record_encoded_size s e)"
    using assms(1) record_encoded_size_kept rate_kept_trans by blast
  moreover have "during_quality_eval (rate_control (record_encoded_size s e))"
    using True by (simp add: record_encoded_size_def Let_def)
  ultimately show ?thesis
    using True eval_quality_kept [of "record_encoded_size s e" F H] assms(2)
    by (auto simp add: adjust_params_end_def dest: rate_kept_trans rate_kept_positive)
next
  case False
  have "positive_rate e" using assms(1,2) by (rule rate_kept_positive)
  moreover have "rate_measurable F e" using assms(1,3) by (simp add: rate_kept_measurable)
  ultimately show ?thesis
    using False process_server_drops_positive by (simp add: adjust_params_end_def)
qed

lemma adjust_params_positive:
  assumes "positive_rate e" "rate_measurable F e"
  shows "\<exists>e1. mjpeg_encoder_adjust_params_to_bit_rate F H now e = Some e1 \<and> positive_rate e1"
proof -
  have ev: "during_quality_eval (rate_control e) \<Longrightarrow>
        \<exists>e1. mjpeg_encoder_eval_quality F H (record_encoded_size s e) = Some e1 \<and> positive_rate e1" for s
  proof -
    assume d: "during_quality_eval (rate_control e)"
    then have "during_quality_eval (rate_control (record_encoded_size s e))"
      by (simp add: record_encoded_size_def Let_def)
    from eval_quality_kept [OF this, of F H]
    show ?thesis using record_encoded_size_kept [of e s] assms(1)
      by (auto dest: rate_kept_trans rate_kept_positive)
  qed
  have en: "rate_kept e x \<Longrightarrow> \<exists>e1. adjust_params_end F H now s x = Some e1 \<and> positive_rate e1" for x s
    using adjust_params_end_positive assms by blast
  show ?thesis
    using assms(1) ev
    by (simp add: mjpeg_encoder_adjust_params_to_bit_rate_def Let_def en
          set_upgrade_kept set_downgrade_kept)
qed

lemma adjust_fps_kept: "rate_kept e (mjpeg_encoder_adjust_fps F H now e)"
  by (simp add: mjpeg_encoder_adjust_fps_def Let_def rate_kept_def)

lemma start_frame_pacing_kept: "rate_kept e (start_frame_pacing F H e)"
proof -
  have "rate_kept e (e\<lparr> rate_control := (rate_control e)\<lparr> adjusted_fps_start_time := t \<rparr> \<rparr>)" for t
    by (simp add: rate_kept_def)
  then show ?thesis
    using adjust_fps_kept rate_kept_trans
    by (fastforce simp add: start_frame_pacing_def Let_def)
qed

lemma start_frame_positive:
  assumes "positive_rate e" "rate_measurable F e"
  shows "\<exists>r e1. mjpeg_encoder_start_frame F H jcs fr e = Some (r, e1) \<and> positive_rate e1"
proof -
  let ?e2 = "start_frame_pacing F H e"
  have k: "rate_kept e ?e2" by (rule start_frame_pacing_kept)
  have p2: "positive_rate ?e2" using k assms(1) by (rule rate_kept_positive)
  have m2: "rate_measurable F ?e2" using k assms(2) by (simp add: rate_kept_measurable)
  obtain e3 where e3: "mjpeg_encoder_adjust_params_to_bit_rate F H (time_ns_later H) ?e2 = Some e3"
    and p3: "positive_rate e3"
    using adjust_params_positive [OF p2 m2] by blast
  show ?thesis
    using p2 p3 e3
    by (auto simp add: mjpeg_encoder_start_frame_def Let_def positive_rate_def
          split: option.split prod.split)
qed

lemma encode_frame_lines_positive:
  "positive_rate e \<Longrightarrow> positive_rate (snd (encode_frame ls e))"
proof (induction ls arbitrary: e)
  case Nil
  then show ?case by simp
next
  case (Cons l ls)
  show ?case
  proof (cases l)
    case No_line
    then show ?thesis using Cons.prems by simp
  next
    case (Scanlines_written n)
    then show ?thesis
      using Cons.prems Cons.IH [of e]
      by (simp add: mjpeg_encoder_encode_scanline_def positive_rate_def)
  qed
qed

lemma end_frame_positive: "positive_rate e \<Longrightarrow> positive_rate (mjpeg_encoder_end_frame s e)"
  by (simp add: mjpeg_encoder_end_frame_def Let_def positive_rate_def)

lemma encode_frame_positive:
  assumes "positive_rate e" "rate_measurable F e"
  shows "\<exists>r e1. mjpeg_encoder_encode_frame F H jcs fr e = Some (r, e1) \<and> positive_rate e1"
proof (cases "buffer_allocated fr")
  case False
  then show ?thesis using assms(1) by (simp add: mjpeg_encoder_encode_frame_def)
next
  case True
  obtain r e1 where s: "mjpeg_encoder_start_frame F H jcs fr e = Some (r, e1)"
    and p1: "positive_rate e1"
    using start_frame_positive [OF assms] by blast
  let ?ls = "map (scanlines fr) [0 ..< unat (src_bottom fr - src_top fr)]"
  have p2: "positive_rate (snd (encode_frame ?ls e1))"
    using p1 by (rule encode_frame_lines_positive)
  show ?thesis
    using True s p1 p2 end_frame_positive
    by (auto simp add: mjpeg_encoder_encode_frame_def split: prod.split bool.split)
qed

lemma increase_positive:
  assumes "positive_rate e"
  shows "positive_rate (mjpeg_encoder_increase_bit_rate F e)"
proof -
  have f: "fps (rate_control e) \<noteq> 0" and b: "byte_rate (rate_control e) \<noteq> 0"
    using assms by (simp_all add: positive_rate_def)
  have "byte_rate (rate_control e) \<le> byte_rate (rate_control (mjpeg_encoder_increase_bit_rate F e))"
    using f by (rule increase_bit_rate_mono)
  then have b1: "byte_rate (rate_control (mjpeg_encoder_increase_bit_rate F e)) \<noteq> 0"
    using b by auto
  have "rate_kept e (mjpeg_encoder_quality_eval_stop F e)" by (rule quality_eval_stop_kept)
  then have "fps (rate_control (mjpeg_encoder_quality_eval_stop F e)) \<noteq> 0"
    using f by (simp add: rate_kept_def)
  then have "fps (rate_control (mjpeg_encoder_increase_bit_rate F e)) \<noteq> 0"
    using f by (simp add: mjpeg_encoder_increase_bit_rate_def Let_def
          mjpeg_encoder_quality_eval_set_upgrade_def)
  with b1 show ?thesis by (simp add: positive_rate_def)
qed

lemma handle_positive_positive:
  "positive_rate e \<Longrightarrow>
   positive_rate (mjpeg_encoder_handle_positive_client_stream_report F H t e)"
  by (simp add: mjpeg_encoder_handle_positive_client_stream_report_def Let_def increase_positive)

lemma handle_negative_positive:
  assumes "positive_rate e" "rate_measurable F e"
  shows "\<exists>e1. mjpeg_encoder_handle_negative_client_stream_report F now t e = Some e1 \<and>
              positive_rate e1"
  using assms decrease_positive [OF assms, of now]
  by (simp add: mjpeg_encoder_handle_negative_client_stream_report_def Let_def)

lemma client_stream_report_positive:
  assumes "positive_rate e" "rate_measurable F e"
  shows "\<exists>e1. mjpeg_encoder_client_stream_report F H n d s t v a e = Some e1 \<and> positive_rate e1"
proof -
  have neg: "rate_kept e x \<Longrightarrow>
     \<exists>e1. mjpeg_encoder_handle_negative_client_stream_report F now t x = Some e1 \<and>
          positive_rate e1" for x now
    using handle_negative_positive assms rate_kept_positive rate_kept_measurable by blast
  have pos: "rate_kept e x \<Longrightarrow>
     positive_rate (mjpeg_encoder_handle_positive_client_stream_report F H s x)" for x
    using handle_positive_positive assms(1) rate_kept_positive by blast
  have k1: "rate_kept e (e\<lparr> playback_delay_updates := l \<rparr>)" for l
    by (simp add: rate_kept_def)
  have k2: "rate_kept e (x\<lparr> rate_control := (rate_control x)\<lparr> client_state := cs \<rparr> \<rparr>)"
    if "rate_kept e x" for x cs
    using that by (simp add: rate_kept_def)
  have k3: "rate_kept e x \<Longrightarrow> positive_rate x" for x
    using assms(1) rate_kept_positive by blast
  show ?thesis
    using assms(1)
    by (simp add: mjpeg_encoder_client_stream_report_def Let_def neg pos k1 k2 k3)
qed

lemma notify_server_frame_drop_positive:
  assumes "positive_rate e" "rate_measurable F e"
  shows "\<exists>e1. mjpeg_encoder_notify_server_frame_drop F H e = Some e1 \<and> positive_rate e1"
proof -
  let ?e = "e\<lparr> rate_control := (rate_control e)
     \<lparr> server_state := (server_state (rate_control e))
          \<lparr> num_frames_dropped := num_frames_dropped (server_state (rate_control e)) + 1 \<rparr> \<rparr> \<rparr>"
  have "rate_kept e ?e" by (simp add: rate_kept_def)
  then have "positive_rate ?e" "rate_measurable F ?e"
    using assms by (simp_all add: rate_kept_positive rate_kept_measurable)
  then show ?thesis
    using process_server_drops_positive [of ?e F H "time_ns H"]
    by (simp add: mjpeg_encoder_notify_server_frame_drop_def Let_def)
qed

lemma step_positive:
  assumes "positive_rate e" "rate_measurable F e"
  shows "\<exists>e1. step F e ev = Some e1 \<and> positive_rate e1"
proof (cases ev)
  case (Frame H jcs fr)
  then show ?thesis using encode_frame_positive [OF assms, of H jcs fr] by auto
next
  case (Report H n d s t v a)
  then show ?thesis using client_stream_report_positive [OF assms] by simp
next
  case (Server_drop H)
  then show ?thesis using notify_server_frame_drop_positive [OF assms] by simp
qed

lemma run_positive:
  "positive_rate e \<Longrightarrow> rates_measurable F e evs \<Longrightarrow>
   \<exists>e1. run F e evs = Some e1 \<and> positive_rate e1"
proof (induction evs arbitrary: e)
  case Nil
  then show ?case by simp
next
  case (Cons ev evs)
  from Cons.prems have m: "rate_measurable F e" by simp
  obtain e1 where s: "step F e ev = Some e1" and p: "positive_rate e1"
    using step_positive [OF Cons.prems(1) m] by blast
  from Cons.prems(2) s have "rates_measurable F e1 evs" by simp
  from Cons.IH [OF p this] s show ?case by simp
qed

lemma new_positive:
  assumes "8 \<le> sbr"
  shows "\<exists>e. mjpeg_encoder_new F SPICE_VIDEO_CODEC_TYPE_MJPEG sbr c now = Some e \<and> positive_rate e"
proof -
  have "8 \<le> unat sbr" using assms by (simp add: word_le_nat_alt)
  then have "0 < unat sbr div 8" by (simp add: div_greater_zero_iff)
  moreover have "unat (sbr div 8) = unat sbr div 8" by (simp add: unat_div)
  ultimately have "unat (sbr div 8) \<noteq> 0" by simp
  then have "sbr div 8 \<noteq> 0" by auto
  then show ?thesis
    by (simp add: mjpeg_encoder_new_def Let_def positive_rate_def reset_quality_fps
          clamped_fps_nonzero zero_encoder_def)
qed

subsection \<open>The admission gate\<close>

text \<open>
  Claim C1: \<^verbatim>\<open>mjpeg_encoder_start_frame\<close> returns DROP exactly when the time since the
  last accepted frame, \<open>now - bit_rate_info.last_frame_time\<close>, is less than
  \<open>1e9 / adjusted_fps\<close> in double arithmetic, \<open>adjusted_fps\<close> being the value that the
  frame-rate adjustment at the start of the call leaves; and so does the submission of a
  frame whose output buffer was allocated.
\<close>

theorem admission_gate:
  "(map_option fst (mjpeg_encoder_start_frame F H jcs fr e) = Some VIDEO_ENCODER_FRAME_DROP \<longleftrightarrow>
      flt F (of_u64 F (time_ns H - last_frame_time (bit_rate_info (rate_control e))))
            (fdiv F (cvt F 1000000000) (adjusted_fps (rate_control (start_frame_pacing F H e))))) \<and>
   (map_option fst (mjpeg_encoder_encode_frame F H jcs (fr\<lparr> buffer_allocated := True \<rparr>) e) =
      Some VIDEO_ENCODER_FRAME_DROP \<longleftrightarrow>
      flt F (of_u64 F (time_ns H - last_frame_time (bit_rate_info (rate_control e))))
            (fdiv F (cvt F 1000000000) (adjusted_fps (rate_control (start_frame_pacing F H e)))))"
proof -
  let ?gate = "flt F (of_u64 F (time_ns H - last_frame_time (bit_rate_info (rate_control e))))
            (fdiv F (cvt F 1000000000) (adjusted_fps (rate_control (start_frame_pacing F H e))))"
  have bri: "bit_rate_info (rate_control (start_frame_pacing F H e)) = bit_rate_info (rate_control e)"
    using start_frame_pacing_kept [of e F H] by (simp add: rate_kept_def)
  have g: "too_early F (time_ns H - last_frame_time (bit_rate_info (rate_control (start_frame_pacing F H e))))
             (adjusted_fps (rate_control (start_frame_pacing F H e))) = ?gate"
    by (simp add: too_early_def bri NSEC_PER_SEC_def)
  have s: "map_option fst (mjpeg_encoder_start_frame F H jcs fr e) = Some VIDEO_ENCODER_FRAME_DROP \<longleftrightarrow> ?gate" for fr
    unfolding g [symmetric]
    by (simp add: mjpeg_encoder_start_frame_def Let_def split: option.split prod.split)
  have f: "map_option fst (mjpeg_encoder_encode_frame F H jcs (fr\<lparr> buffer_allocated := True \<rparr>) e) =
      Some VIDEO_ENCODER_FRAME_DROP \<longleftrightarrow>
      map_option fst (mjpeg_encoder_start_frame F H jcs (fr\<lparr> buffer_allocated := True \<rparr>) e) =
      Some VIDEO_ENCODER_FRAME_DROP"
    by (auto simp add: mjpeg_encoder_encode_frame_def split: option.split prod.split bool.split)
  show ?thesis using s f by simp
qed

theorem admission_gate_witness:
  "map_option fst
     (mjpeg_encoder_start_frame ideal (host_at 2020000000) False
        (frame_of SPICE_BITMAP_FMT_32BIT 20000) sample_paced) = Some VIDEO_ENCODER_FRAME_DROP \<and>
   flt ideal (of_u64 ideal (2020000000 - 2000000000)) (fdiv ideal (cvt ideal 1000000000) 10) \<and>
   map_option fst
     (mjpeg_encoder_start_frame ideal (host_at 2100000000) False
        (frame_of SPICE_BITMAP_FMT_32BIT 20000) sample_paced) =
     Some VIDEO_ENCODER_FRAME_ENCODE_DONE \<and>
   \<not> flt ideal (of_u64 ideal (2100000000 - 2000000000)) (fdiv ideal (cvt ideal 1000000000) 10)"
proof -
  have p: "adjusted_fps (rate_control (start_frame_pacing ideal (host_at t) sample_paced)) = 10"
    if "t = 2020000000 \<or> t = 2100000000" for t
    using that by (auto simp add: eval_defs cong: let_weak_cong)
  have l: "last_frame_time (bit_rate_info (rate_control sample_paced)) = 2000000000"
    by (simp add: eval_defs)
  have t: "time_ns (host_at t) = t" for t by (simp add: host_at_def)
  have d: "flt ideal (of_u64 ideal (2020000000 - 2000000000)) (fdiv ideal (cvt ideal 1000000000) 10)"
    by (simp add: eval_defs)
  have a: "\<not> flt ideal (of_u64 ideal (2100000000 - 2000000000)) (fdiv ideal (cvt ideal 1000000000) 10)"
    by (simp add: eval_defs)
  have e: "map_option fst
     (mjpeg_encoder_start_frame ideal (host_at 2100000000) False
        (frame_of SPICE_BITMAP_FMT_32BIT 20000) sample_paced) =
     Some VIDEO_ENCODER_FRAME_ENCODE_DONE"
    by (simp add: eval_defs cong: let_weak_cong)
  from admission_gate [of ideal "host_at 2020000000" False
      "frame_of SPICE_BITMAP_FMT_32BIT 20000" sample_paced] d
  have "map_option fst
     (mjpeg_encoder_start_frame ideal (host_at 2020000000) False
        (frame_of SPICE_BITMAP_FMT_32BIT 20000) sample_paced) = Some VIDEO_ENCODER_FRAME_DROP"
    by (simp add: p l t)
  with d a e show ?thesis by blast
qed

subsection \<open>The byte rate stays positive\<close>

text \<open>
  Claim C8 as stated fails. An encoder constructed with a starting bit rate of 7 bits per
  second has a byte rate of 0. And an encoder constructed with 8000000 bits per second,
  whose stream is slow enough for the measured rate, 4000 bytes in 6000 seconds, to round
  down to 0, is left with a byte rate of 0 by \<^verbatim>\<open>mjpeg_encoder_decrease_bit_rate\<close>.
\<close>

theorem byte_rate_reaches_zero:
  "map_option (\<lambda>e. byte_rate (rate_control e)) (run_from_new ideal 7 sample_cbs 1 []) = Some 0 \<and>
   map_option (\<lambda>e. byte_rate (rate_control e))
     (run_from_new ideal 8000000 sample_cbs 1 (take 8 slow_run)) = Some 1000000 \<and>
   map_option (\<lambda>e. byte_rate (rate_control e))
     (run_from_new ideal 8000000 sample_cbs 1 slow_run) = Some 0"
  by (simp add: eval_defs cong: let_weak_cong)

text \<open>
  Claim C8, as the code has it: constructed with a starting bit rate of at least 8, and
  run through frame submissions, client reports and server drops in which every rate
  measured over two or more frames is at least one byte per second, the encoder is never
  aborted and its byte rate is greater than zero.
\<close>

theorem byte_rate_stays_positive:
  assumes "8 \<le> sbr"
      and "mjpeg_encoder_new F SPICE_VIDEO_CODEC_TYPE_MJPEG sbr c now = Some e0"
      and "rates_measurable F e0 evs"
  shows "\<exists>e. run F e0 evs = Some e \<and> 0 < byte_rate (rate_control e)"
proof -
  from new_positive [OF assms(1), of F c now] assms(2) have "positive_rate e0" by simp
  from run_positive [OF this assms(3)] show ?thesis
    by (auto simp add: positive_rate_def word_neq_0_conv)
qed

lemma rated_down_run_result:
  "map_option (\<lambda>e. byte_rate (rate_control e))
     (run_from_new ideal 8000000 sample_cbs 1 rated_down_run) = Some 30000"
  by (simp add: eval_defs cong: let_weak_cong)

theorem byte_rate_stays_positive_witness:
  "(8 :: 64 word) \<le> 8000000 \<and>
   (\<exists>e0. mjpeg_encoder_new ideal SPICE_VIDEO_CODEC_TYPE_MJPEG 8000000 sample_cbs 1 = Some e0 \<and>
         rates_measurable ideal e0 rated_down_run \<and>
         (\<exists>e. run ideal e0 rated_down_run = Some e \<and> 0 < byte_rate (rate_control e)))"
proof -
  define e0 where "e0 = the (mjpeg_encoder_new ideal SPICE_VIDEO_CODEC_TYPE_MJPEG 8000000 sample_cbs 1)"
  have h1: "(8 :: 64 word) \<le> 8000000" by simp
  have h2: "mjpeg_encoder_new ideal SPICE_VIDEO_CODEC_TYPE_MJPEG 8000000 sample_cbs 1 = Some e0"
    by (simp add: e0_def mjpeg_encoder_new_def Let_def)
  have h3: "rates_measurable ideal e0 rated_down_run"
    by (simp add: e0_def eval_defs cong: let_weak_cong)
  from byte_rate_stays_positive [OF h1 h2 h3] h1 h2 h3 show ?thesis by blast
qed

subsection \<open>What a client report does\<close>

lemma handle_positive_ignored:
  "during_quality_eval (rate_control e) \<Longrightarrow>
   reason (quality_eval_data (rate_control e)) = MJPEG_QUALITY_EVAL_REASON_RATE_CHANGE \<Longrightarrow>
   mjpeg_encoder_handle_positive_client_stream_report F H t e = e"
  by (simp add: mjpeg_encoder_handle_positive_client_stream_report_def)

lemma handle_negative_cases:
  "mjpeg_encoder_handle_negative_client_stream_report F now t x = Some e1 \<Longrightarrow>
   e1 = x \<or> mjpeg_encoder_decrease_bit_rate F now x = Some e1"
  by (auto simp add: mjpeg_encoder_handle_negative_client_stream_report_def Let_def split: if_splits)

text \<open>
  A report ends in one of three ways, in a state \<open>y\<close> that differs from the one it
  started in by \<open>client_state\<close> and by the log of the playback delays at most: nothing
  more is done, or \<open>y\<close> is handled as a negative report, or as a positive one.
\<close>

lemma client_stream_report_shape:
  assumes s: "mjpeg_encoder_client_stream_report F H n dr st en v a e = Some e1"
  shows "\<exists>y. (\<exists>cs. rate_control y = (rate_control e)\<lparr> client_state := cs \<rparr>) \<and>
             num_frames y = num_frames e \<and>
             (e1 = y \<or>
              mjpeg_encoder_handle_negative_client_stream_report F (time_ns H) en y = Some e1 \<or>
              e1 = mjpeg_encoder_handle_positive_client_stream_report F H st y)"
proof -
  define small where "small \<longleftrightarrow>
     v < get_min_required_playback_delay
           (if num_recent_enc_frames (rate_control e) \<noteq> 0
            then sum_recent_enc_size (rate_control e) div ucast (num_recent_enc_frames (rate_control e))
            else 0)
           (byte_rate (rate_control e)) (mjpeg_encoder_get_latency H e) \<and>
     (quality_id (rate_control e) \<noteq> MJPEG_QUALITY_SAMPLE_NUM - 1 \<or>
      fps (rate_control e) < min (mjpeg_encoder_get_source_fps H e) MJPEG_MAX_FPS \<or> v <s 0)"
  define y1 where "y1 =
     (if small \<and> update_client_playback_delay (cbs e)
      then e\<lparr> playback_delay_updates :=
               get_min_required_playback_delay
                 (if num_recent_enc_frames (rate_control e) \<noteq> 0
                  then sum_recent_enc_size (rate_control e) div ucast (num_recent_enc_frames (rate_control e))
                  else 0)
                 (byte_rate (rate_control e)) (mjpeg_encoder_get_latency H e)
               # playback_delay_updates e \<rparr>
      else e)"
  define cs1 where "cs1 =
     \<lparr> max_video_latency =
         (if max_video_latency (client_state (rate_control e)) <s v then v
          else max_video_latency (client_state (rate_control e))),
       max_audio_latency = max a (max_audio_latency (client_state (rate_control e))) \<rparr>"
  define y2 where "y2 = y1\<lparr> rate_control := (rate_control y1)\<lparr> client_state := cs1 \<rparr> \<rparr>"
  define A where "A \<longleftrightarrow>
     0 <s v \<and>
     flt F (of_u32 F a)
       (fmul F (cvt F MJPEG_PLAYBACK_LATENCY_DECREASE_FACTOR)
          (of_u32 F (max_audio_latency (client_state (rate_control e))))) \<and>
     flt F (fmul F (cvt F MJPEG_VIDEO_VS_AUDIO_LATENCY_FACTOR) (of_u32 F a)) (of_s32 F v)"
  define C where "C \<longleftrightarrow>
     (flt F (of_s32 F v)
        (fmul F (of_s32 F (max_video_latency cs1)) (cvt F MJPEG_PLAYBACK_LATENCY_DECREASE_FACTOR)) \<and>
      small) \<or>
     flt F (of_s32 F v)
        (fmul F (fmul F (of_s32 F (max_video_latency cs1))
                   (cvt F MJPEG_PLAYBACK_LATENCY_DECREASE_FACTOR))
           (cvt F MJPEG_PLAYBACK_LATENCY_DECREASE_FACTOR))"
  define c0 where "c0 \<longleftrightarrow> during_quality_eval (rate_control e) \<and>
         type (quality_eval_data (rate_control e)) = MJPEG_QUALITY_EVAL_TYPE_DOWNGRADE \<and>
         reason (quality_eval_data (rate_control e)) = MJPEG_QUALITY_EVAL_REASON_RATE_CHANGE"
  define B where "B \<longleftrightarrow> v <s MJPEG_VIDEO_DELAY_TH"
  define N1 where "N1 = mjpeg_encoder_handle_negative_client_stream_report F (time_ns H) en y1"
  define N2 where "N2 = mjpeg_encoder_handle_negative_client_stream_report F (time_ns H) en y2"
  define P2 where "P2 = mjpeg_encoder_handle_positive_client_stream_report F H st y2"
  have body: "mjpeg_encoder_client_stream_report F H n dr st en v a e =
     (if c0 then Some e else if A then N1 else if B then N1 else if C then N2
      else if dr = 0 then Some P2 else Some y2)"
    unfolding mjpeg_encoder_client_stream_report_def Let_def small_def y1_def cs1_def y2_def
      A_def C_def c0_def B_def N1_def N2_def P2_def
    by (rule refl)
  have r0: "rate_control e = (rate_control e)\<lparr> client_state := client_state (rate_control e) \<rparr>"
    by simp
  have r1: "rate_control y1 = (rate_control e)\<lparr> client_state := client_state (rate_control e) \<rparr>"
    by (simp add: y1_def)
  have r2: "rate_control y2 = (rate_control e)\<lparr> client_state := cs1 \<rparr>"
    by (simp add: y2_def y1_def)
  have n1: "num_frames y1 = num_frames e" by (simp add: y1_def)
  have n2: "num_frames y2 = num_frames e" by (simp add: y2_def y1_def)
  have "(if c0 then Some e else if A then N1 else if B then N1 else if C then N2
         else if dr = 0 then Some P2 else Some y2) = Some e1"
    using s unfolding body .
  then have "e1 = e \<or> N1 = Some e1 \<or> N2 = Some e1 \<or> e1 = P2 \<or> e1 = y2"
    by (cases c0; cases A; cases B; cases C; cases "dr = 0"; simp; blast)
  then consider (same) "e1 = e"
    | (neg1) "mjpeg_encoder_handle_negative_client_stream_report F (time_ns H) en y1 = Some e1"
    | (neg2) "mjpeg_encoder_handle_negative_client_stream_report F (time_ns H) en y2 = Some e1"
    | (pos2) "e1 = mjpeg_encoder_handle_positive_client_stream_report F H st y2"
    | (end2) "e1 = y2"
    unfolding N1_def N2_def P2_def by blast
  then show ?thesis
  proof cases
    case same
    then show ?thesis using r0 by blast
  next
    case neg1
    then show ?thesis using r1 n1 by blast
  next
    case neg2
    then show ?thesis using r2 n2 by blast
  next
    case pos2
    then show ?thesis using r2 n2 by blast
  next
    case end2
    then show ?thesis using r2 n2 by blast
  qed
qed

subsection \<open>The frame rate is never zero\<close>

lemma decrease_fps:
  assumes "mjpeg_encoder_decrease_bit_rate F now e = Some e1" "fps (rate_control e) \<noteq> 0"
  shows "fps (rate_control e1) \<noteq> 0"
proof -
  have "fps (rate_control (mjpeg_encoder_quality_eval_stop F e)) \<noteq> 0"
    using quality_eval_stop_kept [of e F] assms(2) by (simp add: rate_kept_def)
  with assms(1) show ?thesis
    by (auto simp add: mjpeg_encoder_decrease_bit_rate_def Let_def
          mjpeg_encoder_quality_eval_set_downgrade_def split: if_splits)
qed

lemma process_server_drops_fps:
  assumes "mjpeg_encoder_process_server_drops F H now e = Some e1" "fps (rate_control e) \<noteq> 0"
  shows "fps (rate_control e1) \<noteq> 0"
  using assms
  by (auto simp add: mjpeg_encoder_process_server_drops_def Let_def
        split: if_splits dest: decrease_fps)

lemma eval_quality_fps:
  assumes "mjpeg_encoder_eval_quality F H e = Some e1" "fps (rate_control e) \<noteq> 0"
  shows "fps (rate_control e1) \<noteq> 0"
proof -
  from assms(1) have "during_quality_eval (rate_control e)"
    by (auto simp add: mjpeg_encoder_eval_quality_def Let_def split: if_splits)
  from eval_quality_kept [OF this, of F H] assms show ?thesis
    by (auto simp add: rate_kept_def)
qed

lemma adjust_params_end_fps:
  assumes "adjust_params_end F H now s e = Some e1" "fps (rate_control e) \<noteq> 0"
  shows "fps (rate_control e1) \<noteq> 0"
proof (cases "during_quality_eval (rate_control e)")
  case True
  have "fps (rate_control (record_encoded_size s e)) \<noteq> 0"
    using record_encoded_size_kept [of e s] assms(2) by (simp add: rate_kept_def)
  with True assms(1) show ?thesis
    by (auto simp add: adjust_params_end_def dest: eval_quality_fps)
next
  case False
  with assms show ?thesis
    by (auto simp add: adjust_params_end_def dest: process_server_drops_fps)
qed

lemma adjust_params_fps:
  assumes "mjpeg_encoder_adjust_params_to_bit_rate F H now e = Some e1"
      and "fps (rate_control e) \<noteq> 0"
  shows "fps (rate_control e1) \<noteq> 0"
proof -
  have r: "fps (rate_control (record_encoded_size s e)) \<noteq> 0" for s
    using record_encoded_size_kept [of e s] assms(2) by (simp add: rate_kept_def)
  have u: "fps (rate_control (mjpeg_encoder_quality_eval_set_upgrade r q f e)) \<noteq> 0" for r q f
    using set_upgrade_kept [of e r q f] assms(2) by (simp add: rate_kept_def)
  have d: "fps (rate_control (mjpeg_encoder_quality_eval_set_downgrade r q f e)) \<noteq> 0" for r q f
    using set_downgrade_kept [of e r q f] assms(2) by (simp add: rate_kept_def)
  from assms show ?thesis
    by (auto simp add: mjpeg_encoder_adjust_params_to_bit_rate_def Let_def
          split: if_splits
          dest: eval_quality_fps [OF _ r] adjust_params_end_fps [OF _ u]
            adjust_params_end_fps [OF _ d] adjust_params_end_fps)
qed

lemma start_frame_fps:
  assumes "mjpeg_encoder_start_frame F H jcs fr e = Some (r, e1)" "fps (rate_control e) \<noteq> 0"
  shows "fps (rate_control e1) \<noteq> 0"
proof -
  let ?e2 = "start_frame_pacing F H e"
  have f2: "fps (rate_control ?e2) \<noteq> 0"
    using start_frame_pacing_kept [of e F H] assms(2) by (simp add: rate_kept_def)
  show ?thesis
  proof (cases "too_early F (time_ns H - last_frame_time (bit_rate_info (rate_control ?e2)))
                  (adjusted_fps (rate_control ?e2))")
    case True
    with assms(1) f2 show ?thesis by (auto simp add: mjpeg_encoder_start_frame_def Let_def)
  next
    case False
    with assms(1) obtain e3 where
      e3: "mjpeg_encoder_adjust_params_to_bit_rate F H (time_ns_later H) ?e2 = Some e3"
      by (auto simp add: mjpeg_encoder_start_frame_def Let_def split: option.splits)
    then have "fps (rate_control e3) \<noteq> 0" using f2 by (rule adjust_params_fps)
    with assms(1) False e3 show ?thesis
      by (auto simp add: mjpeg_encoder_start_frame_def Let_def split: option.splits if_splits)
  qed
qed

lemma encode_frame_lines_fps:
  "fps (rate_control (snd (encode_frame ls e))) = fps (rate_control e)"
proof (induction ls arbitrary: e)
  case Nil
  then show ?case by simp
next
  case (Cons l ls)
  show ?case
  proof (cases l)
    case No_line
    then show ?thesis by simp
  next
    case (Scanlines_written n)
    then show ?thesis
      using Cons.IH [of e] by (simp add: mjpeg_encoder_encode_scanline_def)
  qed
qed

lemma end_frame_fps [simp]:
  "fps (rate_control (mjpeg_encoder_end_frame s e)) = fps (rate_control e)"
  by (simp add: mjpeg_encoder_end_frame_def Let_def)

lemma encode_frame_fps:
  assumes "mjpeg_encoder_encode_frame F H jcs fr e = Some (r, e1)" "fps (rate_control e) \<noteq> 0"
  shows "fps (rate_control e1) \<noteq> 0"
proof (cases "buffer_allocated fr")
  case False
  with assms show ?thesis by (auto simp add: mjpeg_encoder_encode_frame_def)
next
  case True
  with assms(1) obtain r' e' where
    s: "mjpeg_encoder_start_frame F H jcs fr e = Some (r', e')"
    by (auto simp add: mjpeg_encoder_encode_frame_def split: option.splits)
  then have f: "fps (rate_control e') \<noteq> 0" using assms(2) by (rule start_frame_fps)
  let ?ls = "map (scanlines fr) [0 ..< unat (src_bottom fr - src_top fr)]"
  have "fps (rate_control (snd (encode_frame ?ls e'))) \<noteq> 0"
    using f by (simp add: encode_frame_lines_fps)
  with assms(1) True s f show ?thesis
    by (auto simp add: mjpeg_encoder_encode_frame_def split: prod.splits bool.splits if_splits)
qed

lemma increase_fps:
  assumes "fps (rate_control e) \<noteq> 0"
  shows "fps (rate_control (mjpeg_encoder_increase_bit_rate F e)) \<noteq> 0"
proof -
  have "fps (rate_control (mjpeg_encoder_quality_eval_stop F e)) \<noteq> 0"
    using quality_eval_stop_kept [of e F] assms by (simp add: rate_kept_def)
  with assms show ?thesis
    by (simp add: mjpeg_encoder_increase_bit_rate_def Let_def
          mjpeg_encoder_quality_eval_set_upgrade_def)
qed

lemma handle_positive_fps:
  "fps (rate_control e) \<noteq> 0 \<Longrightarrow>
   fps (rate_control (mjpeg_encoder_handle_positive_client_stream_report F H t e)) \<noteq> 0"
  by (simp add: mjpeg_encoder_handle_positive_client_stream_report_def Let_def increase_fps)

lemma client_stream_report_fps:
  assumes "mjpeg_encoder_client_stream_report F H n d s t v a e = Some e1"
      and "fps (rate_control e) \<noteq> 0"
  shows "fps (rate_control e1) \<noteq> 0"
proof -
  from client_stream_report_shape [OF assms(1)] obtain y cs where
    y: "rate_control y = (rate_control e)\<lparr> client_state := cs \<rparr>" and
    c: "e1 = y \<or>
        mjpeg_encoder_handle_negative_client_stream_report F (time_ns H) t y = Some e1 \<or>
        e1 = mjpeg_encoder_handle_positive_client_stream_report F H s y"
    by blast
  have f: "fps (rate_control y) \<noteq> 0" using assms(2) by (simp add: y)
  from c show ?thesis
  proof (elim disjE)
    assume "e1 = y"
    with f show ?thesis by simp
  next
    assume "mjpeg_encoder_handle_negative_client_stream_report F (time_ns H) t y = Some e1"
    from handle_negative_cases [OF this] f show ?thesis
      by (auto dest: decrease_fps)
  next
    assume "e1 = mjpeg_encoder_handle_positive_client_stream_report F H s y"
    with f show ?thesis by (simp add: handle_positive_fps)
  qed
qed

lemma notify_server_frame_drop_fps:
  assumes "mjpeg_encoder_notify_server_frame_drop F H e = Some e1" "fps (rate_control e) \<noteq> 0"
  shows "fps (rate_control e1) \<noteq> 0"
  using assms
  by (auto simp add: mjpeg_encoder_notify_server_frame_drop_def Let_def
        dest!: process_server_drops_fps)

lemma step_fps:
  assumes "step F e ev = Some e1" "fps (rate_control e) \<noteq> 0"
  shows "fps (rate_control e1) \<noteq> 0"
proof (cases ev)
  case (Frame H jcs fr)
  with assms show ?thesis by (auto dest: encode_frame_fps)
next
  case (Report H n d s t v a)
  with assms show ?thesis by (auto dest: client_stream_report_fps)
next
  case (Server_drop H)
  with assms show ?thesis by (auto dest: notify_server_frame_drop_fps)
qed

lemma run_fps:
  "run F e evs = Some e1 \<Longrightarrow> fps (rate_control e) \<noteq> 0 \<Longrightarrow> fps (rate_control e1) \<noteq> 0"
proof (induction evs arbitrary: e)
  case Nil
  then show ?case by simp
next
  case (Cons ev evs)
  from Cons.prems(1) obtain e2 where s: "step F e ev = Some e2" and r: "run F e2 evs = Some e1"
    by (auto split: option.splits)
  from step_fps [OF s Cons.prems(2)] have "fps (rate_control e2) \<noteq> 0" .
  from Cons.IH [OF r this] show ?case .
qed

lemma new_fps:
  "mjpeg_encoder_new F codec sbr c now = Some e \<Longrightarrow> fps (rate_control e) \<noteq> 0"
  by (auto simp add: mjpeg_encoder_new_def Let_def reset_quality_fps clamped_fps_nonzero
        split: if_splits)

lemma reachable_fps:
  "mjpeg_encoder_new F codec sbr c now = Some e0 \<Longrightarrow> run F e0 evs = Some e \<Longrightarrow>
   fps (rate_control e) \<noteq> 0"
  using new_fps run_fps by blast

text \<open>
  Claim C3: in every state that the encoder reaches from its construction,
  \<^verbatim>\<open>mjpeg_encoder_increase_bit_rate\<close> leaves \<open>byte_rate\<close> at least as large as it was:
  unchanged when there are too few frames or when the measured rate plus the increase is
  below it, and \<open>min(measured, byte_rate) + increase_size\<close> otherwise.
\<close>

theorem increase_never_reduces_byte_rate:
  assumes "mjpeg_encoder_new F codec sbr c now = Some e0"
      and "run F e0 evs = Some e"
  shows "byte_rate (rate_control e) \<le>
           byte_rate (rate_control (mjpeg_encoder_increase_bit_rate F e)) \<and>
         byte_rate (rate_control (mjpeg_encoder_increase_bit_rate F e)) =
           (let bri = bit_rate_info (rate_control e);
                measured = measured_byte_rate F bri;
                increase_size = sum_enc_size bri div ucast (num_enc_frames bri)
            in if \<not> (3 < num_enc_frames bri \<or> fps (rate_control e) < num_enc_frames bri)
               then byte_rate (rate_control e)
               else if measured + increase_size < byte_rate (rate_control e)
               then byte_rate (rate_control e)
               else min measured (byte_rate (rate_control e)) + increase_size)"
proof -
  have "fps (rate_control e) \<noteq> 0" using assms by (rule reachable_fps)
  then show ?thesis
    by (simp add: increase_bit_rate_mono) (simp add: increase_bit_rate_byte_rate Let_def)
qed

theorem increase_never_reduces_byte_rate_witness:
  "\<exists>e0 e. mjpeg_encoder_new ideal SPICE_VIDEO_CODEC_TYPE_MJPEG 8000000 sample_cbs 1 = Some e0 \<and>
          run ideal e0 steady_run = Some e \<and>
          num_enc_frames (bit_rate_info (rate_control e)) = 4 \<and>
          byte_rate (rate_control e) = 1000000 \<and>
          byte_rate (rate_control e) \<le>
            byte_rate (rate_control (mjpeg_encoder_increase_bit_rate ideal e))"
proof -
  define e0 where
    "e0 = the (mjpeg_encoder_new ideal SPICE_VIDEO_CODEC_TYPE_MJPEG 8000000 sample_cbs 1)"
  define e where "e = the (run ideal e0 steady_run)"
  have h1: "mjpeg_encoder_new ideal SPICE_VIDEO_CODEC_TYPE_MJPEG 8000000 sample_cbs 1 = Some e0"
    by (simp add: e0_def mjpeg_encoder_new_def Let_def)
  have h2: "run ideal e0 steady_run = Some e"
    by (simp add: e_def e0_def eval_defs cong: let_weak_cong)
  have n: "num_enc_frames (bit_rate_info (rate_control e)) = 4"
    by (simp add: e_def e0_def eval_defs cong: let_weak_cong)
  have b: "byte_rate (rate_control e) = 1000000"
    by (simp add: e_def e0_def eval_defs cong: let_weak_cong)
  from increase_never_reduces_byte_rate [OF h1 h2] h1 h2 n b show ?thesis by blast
qed

text \<open>A state in which the rate is raised: from 150000 to 170000 bytes per second.\<close>

lemma sample_rated_increase:
  "byte_rate (rate_control sample_rated) = 150000 \<and>
   byte_rate (rate_control (mjpeg_encoder_increase_bit_rate ideal sample_rated)) = 170000"
  by (simp add: eval_defs cong: let_weak_cong)

subsection \<open>The statistics\<close>

lemma reset_quality_num_frames [simp]:
  "num_frames (mjpeg_encoder_reset_quality F q f s e) = num_frames e"
  by (simp add: mjpeg_encoder_reset_quality_def Let_def)

lemma quality_eval_stop_num_frames [simp]:
  "num_frames (mjpeg_encoder_quality_eval_stop F e) = num_frames e"
  by (simp add: mjpeg_encoder_quality_eval_stop_def Let_def split: eval_type.split)

lemma complete_sample_num_frames [simp]:
  "num_frames (complete_sample F H e) = num_frames e"
  by (simp add: complete_sample_def Let_def)

lemma set_quality_id_num_frames [simp]: "num_frames (set_quality_id q e) = num_frames e"
  by (simp add: set_quality_id_def)

lemma track_best_sample_num_frames [simp]: "num_frames (track_best_sample f s e) = num_frames e"
  by (simp add: track_best_sample_def Let_def)

lemma choose_next_quality_num_frames [simp]:
  "num_frames (choose_next_quality F H f s e) = num_frames e"
  by (simp add: choose_next_quality_def Let_def)

lemma record_encoded_size_num_frames [simp]: "num_frames (record_encoded_size s e) = num_frames e"
  by (simp add: record_encoded_size_def Let_def)

lemma eval_quality_num_frames:
  "mjpeg_encoder_eval_quality F H e = Some e1 \<Longrightarrow> num_frames e1 = num_frames e"
  by (auto simp add: mjpeg_encoder_eval_quality_def Let_def split: if_splits)

lemma decrease_num_frames:
  "mjpeg_encoder_decrease_bit_rate F now e = Some e1 \<Longrightarrow> num_frames e1 = num_frames e"
  by (auto simp add: mjpeg_encoder_decrease_bit_rate_def Let_def
        mjpeg_encoder_quality_eval_set_downgrade_def split: if_splits)

lemma process_server_drops_num_frames:
  "mjpeg_encoder_process_server_drops F H now e = Some e1 \<Longrightarrow> num_frames e1 = num_frames e"
  by (auto simp add: mjpeg_encoder_process_server_drops_def Let_def
        split: if_splits dest: decrease_num_frames)

lemma adjust_params_end_num_frames:
  "adjust_params_end F H now s e = Some e1 \<Longrightarrow> num_frames e1 = num_frames e"
  by (auto simp add: adjust_params_end_def split: if_splits
        dest: eval_quality_num_frames process_server_drops_num_frames)

lemma adjust_params_num_frames:
  "mjpeg_encoder_adjust_params_to_bit_rate F H now e = Some e1 \<Longrightarrow> num_frames e1 = num_frames e"
  by (auto simp add: mjpeg_encoder_adjust_params_to_bit_rate_def Let_def
        mjpeg_encoder_quality_eval_set_upgrade_def mjpeg_encoder_quality_eval_set_downgrade_def
        split: if_splits dest: eval_quality_num_frames adjust_params_end_num_frames)

lemma start_frame_pacing_num_frames [simp]: "num_frames (start_frame_pacing F H e) = num_frames e"
  by (simp add: start_frame_pacing_def mjpeg_encoder_adjust_fps_def Let_def)

lemma start_frame_num_frames:
  assumes "mjpeg_encoder_start_frame F H jcs fr e = Some (r, e1)"
  shows "num_frames e1 =
         (if r = VIDEO_ENCODER_FRAME_ENCODE_DONE then num_frames e + 1 else num_frames e)"
proof (cases "too_early F (time_ns H - last_frame_time (bit_rate_info (rate_control (start_frame_pacing F H e))))
                (adjusted_fps (rate_control (start_frame_pacing F H e)))")
  case True
  with assms show ?thesis by (auto simp add: mjpeg_encoder_start_frame_def Let_def)
next
  case False
  with assms obtain e3 where
    e3: "mjpeg_encoder_adjust_params_to_bit_rate F H (time_ns_later H) (start_frame_pacing F H e) = Some e3"
    by (auto simp add: mjpeg_encoder_start_frame_def Let_def split: option.splits)
  then have n3: "num_frames e3 = num_frames e" using adjust_params_num_frames by fastforce
  from assms False e3 n3 show ?thesis
    by (auto simp add: mjpeg_encoder_start_frame_def Let_def split: option.splits if_splits)
qed

lemma increase_num_frames [simp]:
  "num_frames (mjpeg_encoder_increase_bit_rate F e) = num_frames e"
  by (simp add: mjpeg_encoder_increase_bit_rate_def Let_def
        mjpeg_encoder_quality_eval_set_upgrade_def)

lemma handle_positive_num_frames [simp]:
  "num_frames (mjpeg_encoder_handle_positive_client_stream_report F H t e) = num_frames e"
  by (simp add: mjpeg_encoder_handle_positive_client_stream_report_def Let_def)

lemma handle_negative_num_frames:
  "mjpeg_encoder_handle_negative_client_stream_report F now t e = Some e1 \<Longrightarrow>
   num_frames e1 = num_frames e"
  by (auto simp add: mjpeg_encoder_handle_negative_client_stream_report_def Let_def
        split: if_splits dest: decrease_num_frames)

lemma client_stream_report_num_frames:
  assumes "mjpeg_encoder_client_stream_report F H n d s t v a e = Some e1"
  shows "num_frames e1 = num_frames e"
proof -
  from client_stream_report_shape [OF assms] obtain y where
    n: "num_frames y = num_frames e" and
    c: "e1 = y \<or>
        mjpeg_encoder_handle_negative_client_stream_report F (time_ns H) t y = Some e1 \<or>
        e1 = mjpeg_encoder_handle_positive_client_stream_report F H s y"
    by blast
  from c n show ?thesis
    using handle_negative_num_frames [of F "time_ns H" t y e1] by auto
qed

lemma notify_server_frame_drop_num_frames:
  "mjpeg_encoder_notify_server_frame_drop F H e = Some e1 \<Longrightarrow> num_frames e1 = num_frames e"
  by (auto simp add: mjpeg_encoder_notify_server_frame_drop_def Let_def
        dest: process_server_drops_num_frames)

text \<open>
  Claim C9: \<^verbatim>\<open>mjpeg_encoder_get_stats\<close> divides the sum of the qualities by
  \<open>num_frames\<close>, whatever it is. In a new encoder \<open>num_frames\<close> is 0, and the average
  quality is the quotient of zero by zero. \<open>num_frames\<close> grows by one when
  \<^verbatim>\<open>mjpeg_encoder_start_frame\<close> reaches the set-up of the JPEG compression (it returns
  ENCODE_DONE), and is left as it is when the frame is dropped or unsupported, by a client
  report and by a server drop.
\<close>

theorem get_stats_divides_by_num_frames:
  assumes "mjpeg_encoder_new F SPICE_VIDEO_CODEC_TYPE_MJPEG sbr c now = Some e0"
      and "mjpeg_encoder_start_frame F H jcs fr e = Some (r, e1)"
      and "mjpeg_encoder_client_stream_report F H' n d s t v a e = Some e2"
      and "mjpeg_encoder_notify_server_frame_drop F H'' e = Some e3"
  shows "stats_avg_quality (mjpeg_encoder_get_stats F e) =
           fdiv F (of_u64 F (avg_quality e)) (of_u32 F (num_frames e)) \<and>
         num_frames e0 = 0 \<and>
         stats_avg_quality (mjpeg_encoder_get_stats F e0) = fdiv F (cvt F 0) (cvt F 0) \<and>
         num_frames e1 =
           (if r = VIDEO_ENCODER_FRAME_ENCODE_DONE then num_frames e + 1 else num_frames e) \<and>
         num_frames e2 = num_frames e \<and> num_frames e3 = num_frames e"
proof -
  from assms(1) have z: "num_frames e0 = 0" "avg_quality e0 = 0"
    by (auto simp add: mjpeg_encoder_new_def Let_def zero_encoder_def mjpeg_encoder_reset_quality_def)
  then have "stats_avg_quality (mjpeg_encoder_get_stats F e0) = fdiv F (cvt F 0) (cvt F 0)"
    by (simp add: mjpeg_encoder_get_stats_def of_u64_def of_u32_def)
  with z start_frame_num_frames [OF assms(2)] client_stream_report_num_frames [OF assms(3)]
    notify_server_frame_drop_num_frames [OF assms(4)]
  show ?thesis
    by (simp add: mjpeg_encoder_get_stats_def)
qed

theorem get_stats_divides_by_num_frames_witness:
  "\<exists>e0 e1 e2 e3.
     mjpeg_encoder_new ideal SPICE_VIDEO_CODEC_TYPE_MJPEG 8000000 sample_cbs 1 = Some e0 \<and>
     mjpeg_encoder_start_frame ideal (host_at 1000000000) False
       (frame_of SPICE_BITMAP_FMT_32BIT 20000) e0 = Some (VIDEO_ENCODER_FRAME_ENCODE_DONE, e1) \<and>
     mjpeg_encoder_client_stream_report ideal (host_at 1000000000) 10 0 1000 2000 100 0 e0 =
       Some e2 \<and>
     mjpeg_encoder_notify_server_frame_drop ideal (host_at 1000000000) e0 = Some e3 \<and>
     num_frames e0 = 0 \<and>
     stats_avg_quality (mjpeg_encoder_get_stats ideal e0) = fdiv ideal (cvt ideal 0) (cvt ideal 0) \<and>
     num_frames e1 = 1 \<and> num_frames e2 = 0 \<and> num_frames e3 = 0"
proof -
  define e0 where
    "e0 = the (mjpeg_encoder_new ideal SPICE_VIDEO_CODEC_TYPE_MJPEG 8000000 sample_cbs 1)"
  define e1 where
    "e1 = snd (the (mjpeg_encoder_start_frame ideal (host_at 1000000000) False
                     (frame_of SPICE_BITMAP_FMT_32BIT 20000) e0))"
  define e2 where
    "e2 = the (mjpeg_encoder_client_stream_report ideal (host_at 1000000000) 10 0 1000 2000 100 0 e0)"
  define e3 where
    "e3 = the (mjpeg_encoder_notify_server_frame_drop ideal (host_at 1000000000) e0)"
  have h1: "mjpeg_encoder_new ideal SPICE_VIDEO_CODEC_TYPE_MJPEG 8000000 sample_cbs 1 = Some e0"
    by (simp add: e0_def mjpeg_encoder_new_def Let_def)
  have h2: "mjpeg_encoder_start_frame ideal (host_at 1000000000) False
              (frame_of SPICE_BITMAP_FMT_32BIT 20000) e0 = Some (VIDEO_ENCODER_FRAME_ENCODE_DONE, e1)"
    by (simp add: e1_def e0_def eval_defs cong: let_weak_cong)
  have h3: "mjpeg_encoder_client_stream_report ideal (host_at 1000000000) 10 0 1000 2000 100 0 e0 =
              Some e2"
    by (simp add: e2_def e0_def eval_defs cong: let_weak_cong)
  have h4: "mjpeg_encoder_notify_server_frame_drop ideal (host_at 1000000000) e0 = Some e3"
    by (simp add: e3_def e0_def eval_defs cong: let_weak_cong)
  from get_stats_divides_by_num_frames [OF h1 h2 h3 h4] h1 h2 h3 h4 show ?thesis
    by auto
qed

subsection \<open>Positive reports during an evaluation for a rate change\<close>

lemma report_during_rate_change:
  assumes d: "during_quality_eval (rate_control e)"
      and r: "reason (quality_eval_data (rate_control e)) = MJPEG_QUALITY_EVAL_REASON_RATE_CHANGE"
      and s: "mjpeg_encoder_client_stream_report F H n dr st en v a e = Some e1"
  shows "\<exists>cs. rate_control e1 = (rate_control e)\<lparr> client_state := cs \<rparr> \<or>
              (\<exists>x. rate_control x = (rate_control e)\<lparr> client_state := cs \<rparr> \<and>
                   mjpeg_encoder_decrease_bit_rate F (time_ns H) x = Some e1)"
proof -
  from client_stream_report_shape [OF s] obtain y cs where
    y: "rate_control y = (rate_control e)\<lparr> client_state := cs \<rparr>" and
    c: "e1 = y \<or>
        mjpeg_encoder_handle_negative_client_stream_report F (time_ns H) en y = Some e1 \<or>
        e1 = mjpeg_encoder_handle_positive_client_stream_report F H st y"
    by blast
  have "during_quality_eval (rate_control y)"
    "reason (quality_eval_data (rate_control y)) = MJPEG_QUALITY_EVAL_REASON_RATE_CHANGE"
    using d r by (simp_all add: y)
  then have p: "mjpeg_encoder_handle_positive_client_stream_report F H st y = y"
    by (rule handle_positive_ignored)
  from c p have "e1 = y \<or> mjpeg_encoder_decrease_bit_rate F (time_ns H) y = Some e1"
    using handle_negative_cases [of F "time_ns H" en y e1] by auto
  with y show ?thesis by blast
qed

text \<open>
  Claim C10 as stated fails: during an evaluation of type UPGRADE for a rate change, a
  report without drops does change the state of the rate control. The report's frame
  delay, 100 ms, is recorded as \<open>max_video_latency\<close> before
  \<^verbatim>\<open>mjpeg_encoder_handle_positive_client_stream_report\<close> is reached; the byte rate is kept.
\<close>

theorem positive_report_changes_client_state:
  "during_quality_eval (rate_control sample_upgrading) \<and>
   reason (quality_eval_data (rate_control sample_upgrading)) = MJPEG_QUALITY_EVAL_REASON_RATE_CHANGE \<and>
   type (quality_eval_data (rate_control sample_upgrading)) = MJPEG_QUALITY_EVAL_TYPE_UPGRADE \<and>
   max_video_latency (client_state (rate_control sample_upgrading)) = 0 \<and>
   map_option (\<lambda>e. max_video_latency (client_state (rate_control e))) healthy_report = Some 100 \<and>
   map_option (\<lambda>e. byte_rate (rate_control e)) healthy_report =
     Some (byte_rate (rate_control sample_upgrading)) \<and>
   map_option rate_control healthy_report \<noteq> Some (rate_control sample_upgrading)"
  by (simp add: eval_defs cong: let_weak_cong)

text \<open>
  Claim C10, as the code has it: during a quality evaluation for a rate change, whatever
  its type, \<^verbatim>\<open>mjpeg_encoder_handle_positive_client_stream_report\<close> returns the state as
  it got it, without increasing the bit rate. A client report in such a state changes
  nothing when the type is DOWNGRADE; otherwise it changes at most \<open>client_state\<close> within
  the rate control, unless it is handled as a negative report by
  \<^verbatim>\<open>mjpeg_encoder_decrease_bit_rate\<close>.
\<close>

theorem positive_report_during_rate_change:
  assumes "during_quality_eval (rate_control e)"
      and "reason (quality_eval_data (rate_control e)) = MJPEG_QUALITY_EVAL_REASON_RATE_CHANGE"
  shows "mjpeg_encoder_handle_positive_client_stream_report F H st e = e \<and>
         (type (quality_eval_data (rate_control e)) = MJPEG_QUALITY_EVAL_TYPE_DOWNGRADE \<longrightarrow>
            mjpeg_encoder_client_stream_report F H n dr st en v a e = Some e) \<and>
         (\<forall>e1. mjpeg_encoder_client_stream_report F H n dr st en v a e = Some e1 \<longrightarrow>
            (\<exists>cs. rate_control e1 = (rate_control e)\<lparr> client_state := cs \<rparr> \<or>
                  (\<exists>x. rate_control x = (rate_control e)\<lparr> client_state := cs \<rparr> \<and>
                       mjpeg_encoder_decrease_bit_rate F (time_ns H) x = Some e1)))"
  using assms handle_positive_ignored [OF assms] report_during_rate_change [OF assms]
  by (simp add: mjpeg_encoder_client_stream_report_def)

lemma sample_upgrading_state:
  "during_quality_eval (rate_control sample_upgrading) \<and>
   reason (quality_eval_data (rate_control sample_upgrading)) = MJPEG_QUALITY_EVAL_REASON_RATE_CHANGE \<and>
   type (quality_eval_data (rate_control sample_upgrading)) = MJPEG_QUALITY_EVAL_TYPE_UPGRADE \<and>
   max_video_latency (client_state (rate_control sample_upgrading)) = 0"
  by (simp add: eval_defs cong: let_weak_cong)

theorem positive_report_during_rate_change_witness:
  "during_quality_eval (rate_control sample_upgrading) \<and>
   reason (quality_eval_data (rate_control sample_upgrading)) = MJPEG_QUALITY_EVAL_REASON_RATE_CHANGE \<and>
   mjpeg_encoder_handle_positive_client_stream_report ideal (host_at 3000000000) 1000 sample_upgrading =
     sample_upgrading"
  using positive_report_during_rate_change [of sample_upgrading ideal "host_at 3000000000" 1000]
    sample_upgrading_state by blast

subsection \<open>The quality indices stay in range\<close>

text \<open>
  C leaves a read or a write outside an array undefined. From its construction on, the
  encoder indexes \<^verbatim>\<open>mjpeg_quality_samples\<close> and \<^verbatim>\<open>encoded_size_by_quality\<close> within
  \<open>0..6\<close> only: the evaluation moves the quality one step at a time, down from above the
  median or from a non-zero quality, up unless the next one is the seventh.
\<close>

lemma sample_index_consts [simp]:
  "sample_index 0" "sample_index 3" "sample_index 6"
  "sample_index (MJPEG_QUALITY_SAMPLE_NUM div 2)" "sample_index (MJPEG_QUALITY_SAMPLE_NUM - 1)"
  by (simp_all add: sample_index_def MJPEG_QUALITY_SAMPLE_NUM_def)

lemma sample_index_sint:
  assumes "sample_index q"
  shows "0 \<le> sint q \<and> nat (sint q) < 7 \<and> nat (sint q) = unat q"
proof -
  have u: "uint q < 7"
    using assms by (simp add: sample_index_def MJPEG_QUALITY_SAMPLE_NUM_def word_less_def)
  have z: "0 \<le> uint q" by simp
  have "- (2 ^ 31) \<le> (0 :: int)" by simp
  then have l: "- (2 ^ 31) \<le> uint q" using z by (rule order_trans)
  have "(7 :: int) < 2 ^ 31" by simp
  with u have "uint q < 2 ^ 31" by (rule less_trans)
  with l have "signed_take_bit 31 (uint q) = uint q" by (rule signed_take_bit_int_eq_self)
  then have s: "sint q = uint q" by (simp add: sint_uint)
  have n: "unat q < 7"
    using assms by (simp add: sample_index_def MJPEG_QUALITY_SAMPLE_NUM_def word_less_nat_alt)
  have "nat (sint q) = unat q" by (simp add: s)
  with n show ?thesis by (simp add: s)
qed

lemma sample_index_pred:
  assumes "sample_index q" "q \<noteq> 0"
  shows "sample_index (q - 1)"
proof -
  have "unat (q - 1) < unat q" using assms(2) by (rule measure_unat)
  with assms(1) show ?thesis
    by (simp add: sample_index_def word_less_nat_alt)
qed

lemma sample_index_succ:
  assumes "sample_index q" "q + 1 \<noteq> MJPEG_QUALITY_SAMPLE_NUM"
  shows "sample_index (q + 1)"
proof -
  have q: "unat q < 7"
    using assms(1) by (simp add: sample_index_def MJPEG_QUALITY_SAMPLE_NUM_def word_less_nat_alt)
  then have s: "unat (q + 1) = unat q + 1" by (simp add: unat_plus_if')
  have "unat (q + 1) \<noteq> 7"
  proof
    assume "unat (q + 1) = 7"
    then have "word_of_nat (unat (q + 1)) = (word_of_nat 7 :: 32 word)" by simp
    then have "q + 1 = 7" by simp
    with assms(2) show False by (simp add: MJPEG_QUALITY_SAMPLE_NUM_def)
  qed
  with q s show ?thesis
    by (simp add: sample_index_def MJPEG_QUALITY_SAMPLE_NUM_def word_less_nat_alt)
qed

lemma sample_index_above_median:
  "sample_index q \<Longrightarrow> MJPEG_QUALITY_SAMPLE_NUM div 2 <s q \<Longrightarrow> sample_index (q - 1)"
  by (rule sample_index_pred) (auto simp add: word_sless_alt MJPEG_QUALITY_SAMPLE_NUM_def)

lemma reset_quality_in_range:
  "sample_index q \<Longrightarrow> samples_in_range (mjpeg_encoder_reset_quality F q f s e)"
  by (simp add: samples_in_range_def mjpeg_encoder_reset_quality_def Let_def
        zero_quality_eval_def MJPEG_QUALITY_SAMPLE_NUM_def)

lemma set_quality_id_in_range:
  "sample_index q \<Longrightarrow> samples_in_range e \<Longrightarrow> samples_in_range (set_quality_id q e)"
  by (simp add: samples_in_range_def set_quality_id_def Let_def)

lemma complete_sample_in_range:
  assumes "samples_in_range e"
  shows "samples_in_range (complete_sample F H e)"
proof -
  let ?rc = "rate_control e"
  let ?qe = "quality_eval_data ?rc"
  define fq where "fq =
            (if max_sampled_fps ?qe \<noteq> 0
             then (if max_sampled_fps_quality_id ?qe <s quality_id ?rc
                   then quality_id ?rc else max_sampled_fps_quality_id ?qe)
             else quality_id ?rc)"
  have "sample_index fq" using assms by (simp add: fq_def samples_in_range_def Let_def)
  then have "samples_in_range (mjpeg_encoder_reset_quality F fq f s e)" for f s
    by (rule reset_quality_in_range)
  then show ?thesis
    by (simp add: complete_sample_def Let_def fq_def [symmetric] samples_in_range_def)
qed

lemma track_best_sample_in_range:
  "samples_in_range e \<Longrightarrow> samples_in_range (track_best_sample f s e)"
  by (simp add: samples_in_range_def track_best_sample_def Let_def)

lemma choose_next_quality_in_range:
  assumes "samples_in_range e"
  shows "samples_in_range (choose_next_quality F H f s e)"
proof -
  define q where "q = quality_id (rate_control e)"
  define A where "A \<longleftrightarrow> MJPEG_QUALITY_SAMPLE_NUM div 2 <s q \<and>
                        f < MJPEG_IMPROVE_QUALITY_FPS_STRICT_TH \<and> f < s"
  define B where "B \<longleftrightarrow> q + 1 = MJPEG_QUALITY_SAMPLE_NUM \<or>
                        max_quality_id (quality_eval_data (rate_control e)) \<le>s q \<or>
                        QUALITY_WAS_EVALUATED e (q + 1)"
  define C where "C \<longleftrightarrow> q = 0 \<or> q \<le>s min_quality_id (quality_eval_data (rate_control e))"
  have q: "sample_index q"
    using assms by (simp add: samples_in_range_def Let_def q_def)
  have down: "samples_in_range (set_quality_id (q - 1) e)" if "A \<or> \<not> C"
  proof -
    from that have "sample_index (q - 1)"
      using q by (auto simp add: A_def C_def sample_index_pred sample_index_above_median)
    then show ?thesis using assms by (rule set_quality_id_in_range)
  qed
  have up: "samples_in_range (set_quality_id (q + 1) e)" if "\<not> B"
  proof -
    from that have "sample_index (q + 1)" using q by (simp add: B_def sample_index_succ)
    then show ?thesis using assms by (rule set_quality_id_in_range)
  qed
  note c = complete_sample_in_range
  show ?thesis
    unfolding choose_next_quality_def Let_def q_def [symmetric] A_def [symmetric]
      B_def [symmetric] C_def [symmetric]
    using assms down up by (cases A; cases B; cases C; auto simp add: c)
qed

lemma record_encoded_size_in_range:
  "samples_in_range e \<Longrightarrow> samples_in_range (record_encoded_size s e)"
  by (simp add: samples_in_range_def record_encoded_size_def Let_def)

lemma eval_quality_in_range:
  assumes "mjpeg_encoder_eval_quality F H e = Some e1" "samples_in_range e"
  shows "samples_in_range e1"
  using assms
  by (auto simp add: mjpeg_encoder_eval_quality_def Let_def choose_next_quality_in_range
        track_best_sample_in_range split: if_splits)

lemma set_upgrade_in_range:
  "samples_in_range e \<Longrightarrow> sample_index q \<Longrightarrow>
   samples_in_range (mjpeg_encoder_quality_eval_set_upgrade r q f e)"
  by (simp add: samples_in_range_def mjpeg_encoder_quality_eval_set_upgrade_def Let_def)

lemma set_downgrade_in_range:
  "samples_in_range e \<Longrightarrow> sample_index q \<Longrightarrow>
   samples_in_range (mjpeg_encoder_quality_eval_set_downgrade r q f e)"
  by (simp add: samples_in_range_def mjpeg_encoder_quality_eval_set_downgrade_def Let_def)

lemma quality_eval_stop_in_range:
  "samples_in_range e \<Longrightarrow> samples_in_range (mjpeg_encoder_quality_eval_stop F e)"
  by (auto simp add: mjpeg_encoder_quality_eval_stop_def Let_def reset_quality_in_range
        samples_in_range_def [of e] split: eval_type.split)

lemma decrease_in_range:
  assumes "mjpeg_encoder_decrease_bit_rate F now e = Some e1" "samples_in_range e"
  shows "samples_in_range e1"
proof -
  have "samples_in_range (mjpeg_encoder_quality_eval_stop F e)"
    using assms(2) by (rule quality_eval_stop_in_range)
  with assms(1) show ?thesis
    by (auto simp add: mjpeg_encoder_decrease_bit_rate_def Let_def
          mjpeg_encoder_quality_eval_set_downgrade_def samples_in_range_def split: if_splits)
qed

lemma increase_in_range:
  assumes "samples_in_range e"
  shows "samples_in_range (mjpeg_encoder_increase_bit_rate F e)"
proof -
  have "samples_in_range (mjpeg_encoder_quality_eval_stop F e)"
    using assms by (rule quality_eval_stop_in_range)
  with assms show ?thesis
    by (simp add: mjpeg_encoder_increase_bit_rate_def Let_def
          mjpeg_encoder_quality_eval_set_upgrade_def samples_in_range_def)
qed

lemma handle_positive_in_range:
  "samples_in_range e \<Longrightarrow>
   samples_in_range (mjpeg_encoder_handle_positive_client_stream_report F H t e)"
  by (simp add: mjpeg_encoder_handle_positive_client_stream_report_def Let_def increase_in_range)

lemma process_server_drops_in_range:
  assumes "mjpeg_encoder_process_server_drops F H now e = Some e1" "samples_in_range e"
  shows "samples_in_range e1"
proof -
  have k: "samples_in_range (x\<lparr> rate_control := (rate_control x)\<lparr> server_state := s \<rparr> \<rparr>) =
           samples_in_range x" for x :: "'a MJpegEncoder" and s
    by (simp add: samples_in_range_def)
  from assms show ?thesis
    by (auto simp add: mjpeg_encoder_process_server_drops_def Let_def k
          split: if_splits dest: decrease_in_range)
qed

lemma notify_server_frame_drop_in_range:
  assumes "mjpeg_encoder_notify_server_frame_drop F H e = Some e1" "samples_in_range e"
  shows "samples_in_range e1"
proof -
  have k: "samples_in_range (x\<lparr> rate_control := (rate_control x)\<lparr> server_state := s \<rparr> \<rparr>)"
    if "samples_in_range x" for x :: "'a MJpegEncoder" and s
    using that by (simp add: samples_in_range_def)
  from assms(1) show ?thesis
    unfolding mjpeg_encoder_notify_server_frame_drop_def Let_def
    by (rule process_server_drops_in_range) (rule k [OF assms(2)])
qed

lemma adjust_params_end_in_range:
  assumes "adjust_params_end F H now s e = Some e1" "samples_in_range e"
  shows "samples_in_range e1"
proof (cases "during_quality_eval (rate_control e)")
  case True
  have "samples_in_range (record_encoded_size s e)"
    using assms(2) by (rule record_encoded_size_in_range)
  with True assms(1) show ?thesis
    by (auto simp add: adjust_params_end_def dest: eval_quality_in_range)
next
  case False
  with assms show ?thesis
    by (auto simp add: adjust_params_end_def dest: process_server_drops_in_range)
qed

lemma adjust_params_in_range:
  assumes "mjpeg_encoder_adjust_params_to_bit_rate F H now e = Some e1"
      and "samples_in_range e"
  shows "samples_in_range e1"
proof -
  have q: "sample_index (quality_id (rate_control e))"
    using assms(2) by (simp add: samples_in_range_def Let_def)
  have r: "samples_in_range (record_encoded_size s e)" for s
    using assms(2) by (rule record_encoded_size_in_range)
  have u: "samples_in_range
             (mjpeg_encoder_quality_eval_set_upgrade r (quality_id (rate_control e)) f e)" for r f
    using assms(2) q by (rule set_upgrade_in_range)
  have d: "samples_in_range
             (mjpeg_encoder_quality_eval_set_downgrade r (quality_id (rate_control e)) f e)" for r f
    using assms(2) q by (rule set_downgrade_in_range)
  from assms show ?thesis
    by (auto simp add: mjpeg_encoder_adjust_params_to_bit_rate_def Let_def
          split: if_splits
          dest: eval_quality_in_range [OF _ r] adjust_params_end_in_range [OF _ u]
            adjust_params_end_in_range [OF _ d] adjust_params_end_in_range)
qed

lemma start_frame_pacing_in_range:
  "samples_in_range (start_frame_pacing F H e) = samples_in_range e"
  by (simp add: start_frame_pacing_def mjpeg_encoder_adjust_fps_def Let_def samples_in_range_def)

lemma start_frame_in_range:
  assumes "mjpeg_encoder_start_frame F H jcs fr e = Some (r, e1)" "samples_in_range e"
  shows "samples_in_range e1"
proof -
  let ?e2 = "start_frame_pacing F H e"
  have f2: "samples_in_range ?e2" using assms(2) by (simp add: start_frame_pacing_in_range)
  show ?thesis
  proof (cases "too_early F (time_ns H - last_frame_time (bit_rate_info (rate_control ?e2)))
                  (adjusted_fps (rate_control ?e2))")
    case True
    with assms(1) f2 show ?thesis by (auto simp add: mjpeg_encoder_start_frame_def Let_def)
  next
    case False
    with assms(1) obtain e3 where
      e3: "mjpeg_encoder_adjust_params_to_bit_rate F H (time_ns_later H) ?e2 = Some e3"
      by (auto simp add: mjpeg_encoder_start_frame_def Let_def split: option.splits)
    then have "samples_in_range e3" using f2 by (rule adjust_params_in_range)
    with assms(1) False e3 show ?thesis
      by (auto simp add: mjpeg_encoder_start_frame_def Let_def samples_in_range_def
            split: option.splits if_splits)
  qed
qed

lemma encode_frame_lines_in_range:
  "samples_in_range (snd (encode_frame ls e)) = samples_in_range e"
proof (induction ls arbitrary: e)
  case Nil
  then show ?case by simp
next
  case (Cons l ls)
  show ?case
  proof (cases l)
    case No_line
    then show ?thesis by simp
  next
    case (Scanlines_written n)
    then show ?thesis
      using Cons.IH [of e]
      by (simp add: mjpeg_encoder_encode_scanline_def samples_in_range_def)
  qed
qed

lemma end_frame_in_range [simp]:
  "samples_in_range (mjpeg_encoder_end_frame s e) = samples_in_range e"
  by (simp add: mjpeg_encoder_end_frame_def Let_def samples_in_range_def)

lemma encode_frame_in_range:
  assumes "mjpeg_encoder_encode_frame F H jcs fr e = Some (r, e1)" "samples_in_range e"
  shows "samples_in_range e1"
proof (cases "buffer_allocated fr")
  case False
  with assms show ?thesis by (auto simp add: mjpeg_encoder_encode_frame_def)
next
  case True
  with assms(1) obtain r' e' where
    s: "mjpeg_encoder_start_frame F H jcs fr e = Some (r', e')"
    by (auto simp add: mjpeg_encoder_encode_frame_def split: option.splits)
  then have f: "samples_in_range e'" using assms(2) by (rule start_frame_in_range)
  let ?ls = "map (scanlines fr) [0 ..< unat (src_bottom fr - src_top fr)]"
  have "samples_in_range (snd (encode_frame ?ls e'))"
    using f by (simp add: encode_frame_lines_in_range)
  with assms(1) True s f show ?thesis
    by (auto simp add: mjpeg_encoder_encode_frame_def split: prod.splits bool.splits if_splits)
qed

lemma client_stream_report_in_range:
  assumes "mjpeg_encoder_client_stream_report F H n d s t v a e = Some e1"
      and "samples_in_range e"
  shows "samples_in_range e1"
proof -
  from client_stream_report_shape [OF assms(1)] obtain y cs where
    y: "rate_control y = (rate_control e)\<lparr> client_state := cs \<rparr>" and
    c: "e1 = y \<or>
        mjpeg_encoder_handle_negative_client_stream_report F (time_ns H) t y = Some e1 \<or>
        e1 = mjpeg_encoder_handle_positive_client_stream_report F H s y"
    by blast
  have f: "samples_in_range y" using assms(2) by (simp add: samples_in_range_def y)
  from c show ?thesis
  proof (elim disjE)
    assume "e1 = y"
    with f show ?thesis by simp
  next
    assume "mjpeg_encoder_handle_negative_client_stream_report F (time_ns H) t y = Some e1"
    from handle_negative_cases [OF this] f show ?thesis
      by (auto dest: decrease_in_range)
  next
    assume "e1 = mjpeg_encoder_handle_positive_client_stream_report F H s y"
    with f show ?thesis by (simp add: handle_positive_in_range)
  qed
qed

lemma step_in_range:
  assumes "step F e ev = Some e1" "samples_in_range e"
  shows "samples_in_range e1"
proof (cases ev)
  case (Frame H jcs fr)
  with assms show ?thesis by (auto dest: encode_frame_in_range)
next
  case (Report H n d s t v a)
  with assms show ?thesis by (auto dest: client_stream_report_in_range)
next
  case (Server_drop H)
  with assms show ?thesis by (auto dest: notify_server_frame_drop_in_range)
qed

lemma run_in_range:
  "run F e evs = Some e1 \<Longrightarrow> samples_in_range e \<Longrightarrow> samples_in_range e1"
proof (induction evs arbitrary: e)
  case Nil
  then show ?case by simp
next
  case (Cons ev evs)
  from Cons.prems(1) obtain e2 where s: "step F e ev = Some e2" and r: "run F e2 evs = Some e1"
    by (auto split: option.splits)
  from step_in_range [OF s Cons.prems(2)] have "samples_in_range e2" .
  from Cons.IH [OF r this] show ?case .
qed

lemma new_in_range:
  assumes "mjpeg_encoder_new F codec sbr c now = Some e"
  shows "samples_in_range e"
proof -
  have "samples_in_range (mjpeg_encoder_reset_quality F (MJPEG_QUALITY_SAMPLE_NUM div 2) f s x)"
    for f s and x :: "'a MJpegEncoder"
    by (rule reset_quality_in_range) simp
  with assms show ?thesis
    by (auto simp add: mjpeg_encoder_new_def Let_def samples_in_range_def split: if_splits)
qed

lemma reachable_in_range:
  assumes "mjpeg_encoder_new F codec sbr c now = Some e0" "run F e0 evs = Some e"
  shows "0 \<le> sint (quality_id (rate_control e)) \<and>
         nat (sint (quality_id (rate_control e))) < length mjpeg_quality_samples \<and>
         nat (sint (quality_id (rate_control e))) <
           length (encoded_size_by_quality (quality_eval_data (rate_control e)))"
proof -
  have "samples_in_range e" using assms(2) new_in_range [OF assms(1)] by (rule run_in_range)
  then have "sample_index (quality_id (rate_control e))" and
    "length (encoded_size_by_quality (quality_eval_data (rate_control e))) = 7"
    by (simp_all add: samples_in_range_def MJPEG_QUALITY_SAMPLE_NUM_def)
  with sample_index_sint [of "quality_id (rate_control e)"] show ?thesis
    by (simp add: mjpeg_quality_samples_def)
qed

end
